theory Spec2Isabelle
  imports Main
begin

section \<open>Python values, dictionaries and exceptions\<close>

text \<open>
  The module \<^verbatim>\<open>cork/mongodb_backend.py\<close> stores records (field name to value) in a
  document store and keeps an optional memcache in front of it. Field values are the
  scalars a record holds; \<open>ObjectId\<close> is the storage id the document store assigns.
  The keys of a table (user names, role names, registration codes) are strings.
\<close>

datatype scalar = PNone | PBool bool | PInt int | PStr string | ObjectId nat

text \<open>
  A \<^verbatim>\<open>dict\<close> with string keys, in insertion order. Lookup is \<open>map_of\<close> (the first
  binding of a key), so a list with a repeated key behaves as the dict of its first bindings.
\<close>

type_synonym fields = "(string \<times> scalar) list"

datatype error =
    KeyError string
  | AssertionError
  | AttributeError
  | OperationFailure
  | DuplicateKeyError

text \<open>\<^verbatim>\<open>d[f] = v\<close> on a built-in dict: overwrite in place, or append a new key.\<close>

fun dict_store :: "string \<Rightarrow> scalar \<Rightarrow> fields \<Rightarrow> fields" where
  "dict_store f v [] = [(f, v)]"
| "dict_store f v ((g, u) # d) = (if g = f then (f, v) # d else (g, u) # dict_store f v d)"

fun dict_remove :: "string \<Rightarrow> fields \<Rightarrow> fields" where
  "dict_remove f [] = []"
| "dict_remove f ((g, u) # d) = (if g = f then dict_remove f d else (g, u) # dict_remove f d)"

text \<open>\<^verbatim>\<open>d.pop(f)\<close>: KeyError when the key is missing.\<close>

definition dict_pop :: "string \<Rightarrow> fields \<Rightarrow> error + (scalar \<times> fields)" where
  "dict_pop f d = (case map_of d f of None \<Rightarrow> Inl (KeyError f) | Some v \<Rightarrow> Inr (v, dict_remove f d))"

section \<open>Tables, objects and the world\<close>

text \<open>
  \<^verbatim>\<open>MongoTable.__init__\<close> keeps the name, the key field, the collection handle and the
  derived memcache prefix. \<open>t_kind\<close> is the concrete subclass of the instance.
\<close>

datatype kind = SingleValue | MultiValue

record table =
  t_name :: string
  t_key_name :: string
  t_coll :: string
  t_mc_prefix :: string
  t_kind :: kind

definition MongoTable_init :: "kind \<Rightarrow> string \<Rightarrow> string \<Rightarrow> string \<Rightarrow> table" where
  "MongoTable_init k nm key c =
     \<lparr>t_name = nm, t_key_name = key, t_coll = c, t_mc_prefix = nm @ key, t_kind = k\<rparr>"

text \<open>
  A dict object on the heap. A plain \<^verbatim>\<open>dict\<close> has no owner; a
  \<^verbatim>\<open>MongoMutableDict\<close> keeps \<^verbatim>\<open>_parent\<close> and \<^verbatim>\<open>_root_key\<close>.
\<close>

record dictobj =
  d_items :: fields
  d_owner :: "(table \<times> string) option"

text \<open>
  What a caller passes as \<^verbatim>\<open>data\<close>: a scalar, or a reference to a dict object
  (\<^verbatim>\<open>isinstance(data, dict)\<close> holds exactly for \<open>DictRef\<close>).
\<close>

datatype pyobj = Scalar scalar | DictRef nat

text \<open>The \<^verbatim>\<open>Memcache\<close> helper object; \<open>mc_cache\<close> is the client handle, \<open>None\<close> until connected.\<close>

record Memcache =
  mc_host :: "string option"
  mc_port :: "nat option"
  mc_decay :: nat
  mc_cache :: "(string \<times> nat) option"

text \<open>Calls made to the two external services, in order.\<close>

datatype call =
    McGet string
  | McSet string fields nat
  | McDelete string
  | FindOne string string string
  | Find string
  | Update string string string fields
  | Remove string string string

record world =
  MC :: Memcache
  mc_server :: "string \<rightharpoonup> fields \<times> nat"
  db :: "string \<Rightarrow> fields list"
  next_oid :: nat
  heap :: "nat \<Rightarrow> dictobj"
  next_addr :: nat
  calls :: "call list"

type_synonym 'a res = "(error + 'a) \<times> world"

definition bind_res :: "(world \<Rightarrow> 'a res) \<Rightarrow> ('a \<Rightarrow> world \<Rightarrow> 'b res) \<Rightarrow> world \<Rightarrow> 'b res" where
  "bind_res m f w = (case m w of (Inl e, w') \<Rightarrow> (Inl e, w') | (Inr x, w') \<Rightarrow> f x w')"

definition return_res :: "'a \<Rightarrow> world \<Rightarrow> 'a res" where
  "return_res x w = (Inr x, w)"

definition raise_res :: "error \<Rightarrow> world \<Rightarrow> 'a res" where
  "raise_res e w = (Inl e, w)"

section \<open>The external services\<close>

text \<open>
  Modelled from the spec: the memcache client (\<^verbatim>\<open>memcache.Client\<close>, a third-party
  package) with the interface of section 6: \<^verbatim>\<open>get(namespacedKey) -> value|miss\<close>,
  \<^verbatim>\<open>set(namespacedKey, value, ttl)\<close>, \<^verbatim>\<open>delete(namespacedKey)\<close>; get never
  raises on a miss, set overwrites silently, delete is idempotent. Each entry keeps the
  lifetime it was stored with. Every call is recorded.
\<close>

definition client_get :: "string \<Rightarrow> world \<Rightarrow> fields option res" where
  "client_get key w =
     (Inr (map_option fst (mc_server w key)), w\<lparr>calls := calls w @ [McGet key]\<rparr>)"

definition client_set :: "string \<Rightarrow> fields \<Rightarrow> nat \<Rightarrow> world \<Rightarrow> unit res" where
  "client_set key v ttl w =
     (Inr (), w\<lparr>mc_server := (mc_server w)(key \<mapsto> (v, ttl)), calls := calls w @ [McSet key v ttl]\<rparr>)"

definition client_delete :: "string \<Rightarrow> world \<Rightarrow> unit res" where
  "client_delete key w =
     (Inr (), w\<lparr>mc_server := (mc_server w)(key := None), calls := calls w @ [McDelete key]\<rparr>)"

text \<open>
  Modelled from the spec: the document store collection (\<^verbatim>\<open>pymongo\<close>, a third-party
  package) with the interface of section 6: \<^verbatim>\<open>findOne(filter)\<close>, \<^verbatim>\<open>find()\<close>,
  \<^verbatim>\<open>upsert(filter, record)\<close>, \<^verbatim>\<open>remove(filter)\<close>. The filter is always
  \<^verbatim>\<open>{key_name: key_val}\<close>: a document matches when its key field holds that string.
  \<^verbatim>\<open>findOne\<close> returns the first match. The upsert replaces the first match wholesale,
  keeping its storage id (a record carrying another \<^verbatim>\<open>_id\<close> is refused), or inserts
  the record when nothing matches, giving it a fresh \<^verbatim>\<open>_id\<close> unless it brings its own
  (refused when another document already has it). \<^verbatim>\<open>remove\<close> deletes every match.
  That stored documents carry \<^verbatim>\<open>_id\<close> is what \<^verbatim>\<open>iteritems\<close> relies on when it pops
  that field from each of them.
\<close>

definition matches :: "string \<Rightarrow> string \<Rightarrow> fields \<Rightarrow> bool" where
  "matches key k d = (map_of d key = Some (PStr k))"

definition coll_find_one :: "string \<Rightarrow> string \<Rightarrow> string \<Rightarrow> world \<Rightarrow> fields option res" where
  "coll_find_one c key k w =
     (Inr (find (matches key k) (db w c)), w\<lparr>calls := calls w @ [FindOne c key k]\<rparr>)"

definition coll_find :: "string \<Rightarrow> world \<Rightarrow> fields list res" where
  "coll_find c w = (Inr (db w c), w\<lparr>calls := calls w @ [Find c]\<rparr>)"

fun replace_first :: "(fields \<Rightarrow> bool) \<Rightarrow> fields \<Rightarrow> fields list \<Rightarrow> fields list" where
  "replace_first P new [] = []"
| "replace_first P new (d # ds) = (if P d then new # ds else d # replace_first P new ds)"

definition keep_id :: "fields \<Rightarrow> fields \<Rightarrow> fields" where
  "keep_id old new = (case map_of old ''_id'' of None \<Rightarrow> new | Some i \<Rightarrow> (''_id'', i) # new)"

definition coll_update :: "string \<Rightarrow> string \<Rightarrow> string \<Rightarrow> fields \<Rightarrow> world \<Rightarrow> unit res" where
  "coll_update c key k data w =
     (let w1 = w\<lparr>calls := calls w @ [Update c key k data]\<rparr>; docs = db w c in
      case find (matches key k) docs of
        Some old \<Rightarrow>
          (case map_of data ''_id'' of
             None \<Rightarrow>
               (Inr (), w1\<lparr>db := (db w)(c := replace_first (matches key k) (keep_id old data) docs)\<rparr>)
           | Some i \<Rightarrow>
               if map_of old ''_id'' = Some i
               then (Inr (), w1\<lparr>db := (db w)(c := replace_first (matches key k) data docs)\<rparr>)
               else (Inl OperationFailure, w1))
      | None \<Rightarrow>
          (case map_of data ''_id'' of
             None \<Rightarrow>
               (Inr (), w1\<lparr>db := (db w)(c := docs @ [(''_id'', ObjectId (next_oid w)) # data]),
                            next_oid := Suc (next_oid w)\<rparr>)
           | Some i \<Rightarrow>
               if find (\<lambda>d. map_of d ''_id'' = Some i) docs = None
               then (Inr (), w1\<lparr>db := (db w)(c := docs @ [data])\<rparr>)
               else (Inl DuplicateKeyError, w1)))"

definition coll_remove :: "string \<Rightarrow> string \<Rightarrow> string \<Rightarrow> world \<Rightarrow> unit res" where
  "coll_remove c key k w =
     (Inr (), w\<lparr>db := (db w)(c := filter (\<lambda>d. \<not> matches key k d) (db w c)),
                 calls := calls w @ [Remove c key k]\<rparr>)"

section \<open>class Memcache\<close>

definition Memcache_connect :: "string option \<Rightarrow> nat option \<Rightarrow> nat \<Rightarrow> Memcache \<Rightarrow> Memcache" where
  "Memcache_connect h p dec self =
     (case (h, p) of
        (Some hs, Some pn) \<Rightarrow>
          if hs \<noteq> [] \<and> pn \<noteq> 0
          then self\<lparr>mc_host := h, mc_port := p, mc_decay := dec, mc_cache := Some (hs, pn)\<rparr>
          else self
      | _ \<Rightarrow> self)"

definition Memcache_init :: "string option \<Rightarrow> nat option \<Rightarrow> nat \<Rightarrow> Memcache" where
  "Memcache_init h p dec =
     Memcache_connect h p dec \<lparr>mc_host = h, mc_port = p, mc_decay = dec, mc_cache = None\<rparr>"

text \<open>The module-level \<^verbatim>\<open>_MC = Memcache()\<close>.\<close>

definition MC_default :: Memcache where
  "MC_default = Memcache_init None None 300"

definition Memcache_key :: "string \<Rightarrow> string option \<Rightarrow> string" where
  "Memcache_key key prefix = (case prefix of None \<Rightarrow> [] | Some p \<Rightarrow> p) @ key"

text \<open>
  \<^verbatim>\<open>get\<close>, \<^verbatim>\<open>set\<close> and \<^verbatim>\<open>delete\<close> use \<^verbatim>\<open>self.cache\<close> unguarded: on a
  \<open>None\<close> handle the attribute access raises AttributeError.
\<close>

definition Memcache_get :: "string \<Rightarrow> string option \<Rightarrow> world \<Rightarrow> fields option res" where
  "Memcache_get key prefix w =
     (case mc_cache (MC w) of
        None \<Rightarrow> (Inl AttributeError, w)
      | Some _ \<Rightarrow> client_get (Memcache_key key prefix) w)"

definition Memcache_set :: "string \<Rightarrow> fields \<Rightarrow> string option \<Rightarrow> world \<Rightarrow> unit res" where
  "Memcache_set key v prefix w =
     (case mc_cache (MC w) of
        None \<Rightarrow> (Inl AttributeError, w)
      | Some _ \<Rightarrow> client_set (Memcache_key key prefix) v (mc_decay (MC w)) w)"

definition Memcache_delete :: "string \<Rightarrow> string option \<Rightarrow> world \<Rightarrow> unit res" where
  "Memcache_delete key prefix w =
     (case mc_cache (MC w) of
        None \<Rightarrow> (Inl AttributeError, w)
      | Some _ \<Rightarrow> client_delete (Memcache_key key prefix) w)"

text \<open>The truth value of \<^verbatim>\<open>_MC.cache\<close> in the guards \<^verbatim>\<open>if _MC.cache:\<close>.\<close>

definition mc_on :: "world \<Rightarrow> bool" where
  "mc_on w = (mc_cache (MC w) \<noteq> None)"

section \<open>class MongoTable\<close>

definition MongoTable_contains :: "table \<Rightarrow> string \<Rightarrow> world \<Rightarrow> bool res" where
  "MongoTable_contains self v =
     bind_res (\<lambda>w. if mc_on w then Memcache_get v (Some (t_mc_prefix self)) w
                   else return_res None w) (\<lambda>r0.
     bind_res (case r0 of
                 None \<Rightarrow> coll_find_one (t_coll self) (t_key_name self) v
               | Some _ \<Rightarrow> return_res r0) (\<lambda>r.
     bind_res (\<lambda>w. case r of
                     Some d \<Rightarrow> if mc_on w then Memcache_set v d (Some (t_mc_prefix self)) w
                               else return_res () w
                   | None \<Rightarrow> return_res () w) (\<lambda>_.
     return_res (r \<noteq> None))))"

text \<open>
  The generator of \<^verbatim>\<open>iteritems\<close>, run to its end: the pairs it yields and the
  exception that stops it, if one does.
\<close>

fun iter_docs :: "string \<Rightarrow> fields list \<Rightarrow> (scalar \<times> fields) list \<times> error option" where
  "iter_docs key [] = ([], None)"
| "iter_docs key (i # r) =
     (case dict_pop key i of
        Inl e \<Rightarrow> ([], Some e)
      | Inr (_, d1) \<Rightarrow>
          (case dict_pop ''_id'' d1 of
             Inl e \<Rightarrow> ([], Some e)
           | Inr (_, d2) \<Rightarrow>
               (case map_of i key of
                  None \<Rightarrow> ([], Some (KeyError key))
                | Some kv \<Rightarrow> (case iter_docs key r of (ys, e) \<Rightarrow> ((kv, d2) # ys, e)))))"

definition MongoTable_iteritems ::
  "table \<Rightarrow> world \<Rightarrow> ((scalar \<times> fields) list \<times> error option) \<times> world" where
  "MongoTable_iteritems self w =
     (case coll_find (t_coll self) w of
        (Inl e, w1) \<Rightarrow> (([], Some e), w1)
      | (Inr r, w1) \<Rightarrow> (iter_docs (t_key_name self) r, w1))"

section \<open>class MongoSingleValueTable\<close>

text \<open>
  \<^verbatim>\<open>__setitem__\<close>: the dict literal \<^verbatim>\<open>{self._key_name: key_val, 'val': data}\<close> is
  built by two stores, so a key field named \<^verbatim>\<open>val\<close> is overwritten by the value.
\<close>

definition MongoSingleValueTable_setitem :: "table \<Rightarrow> string \<Rightarrow> pyobj \<Rightarrow> world \<Rightarrow> unit res" where
  "MongoSingleValueTable_setitem self key_val data =
     (case data of
        DictRef _ \<Rightarrow> raise_res AssertionError
      | Scalar v \<Rightarrow>
          bind_res (coll_update (t_coll self) (t_key_name self) key_val
                      (dict_store ''val'' v (dict_store (t_key_name self) (PStr key_val) []))) (\<lambda>_ w.
            if mc_on w then Memcache_delete key_val (Some (t_mc_prefix self)) w
            else return_res () w))"

definition MongoSingleValueTable_getitem :: "table \<Rightarrow> string \<Rightarrow> world \<Rightarrow> scalar res" where
  "MongoSingleValueTable_getitem self key_val =
     bind_res (\<lambda>w. if mc_on w then Memcache_get key_val (Some (t_mc_prefix self)) w
                   else return_res None w) (\<lambda>r0.
     bind_res (case r0 of
                 None \<Rightarrow> coll_find_one (t_coll self) (t_key_name self) key_val
               | Some _ \<Rightarrow> return_res r0) (\<lambda>r.
     case r of
       None \<Rightarrow> raise_res (KeyError key_val)
     | Some d \<Rightarrow>
         bind_res (\<lambda>w. if mc_on w then Memcache_set key_val d (Some (t_mc_prefix self)) w
                       else return_res () w) (\<lambda>_.
           case map_of d ''val'' of
             None \<Rightarrow> raise_res (KeyError ''val'')
           | Some v \<Rightarrow> return_res v)))"

section \<open>class MongoMultiValueTable and class MongoMutableDict\<close>

text \<open>The built-in \<^verbatim>\<open>dict.__setitem__\<close> on the object at an address.\<close>

definition heap_store :: "nat \<Rightarrow> string \<Rightarrow> scalar \<Rightarrow> world \<Rightarrow> world" where
  "heap_store a f v w =
     w\<lparr>heap := (heap w)(a := (heap w a)\<lparr>d_items := dict_store f v (d_items (heap w a))\<rparr>)\<rparr>"

text \<open>
  How many more times \<^verbatim>\<open>MongoMultiValueTable.__setitem__\<close> is entered from a call:
  only a missing key field leads to a nested call, and the store that precedes the nested
  call adds that field.
\<close>

definition setitem_depth :: "table \<times> string \<times> pyobj \<times> world \<Rightarrow> nat" where
  "setitem_depth x =
     (case x of (self, key_val, data, w) \<Rightarrow>
        (case data of
           Scalar _ \<Rightarrow> 0
         | DictRef a \<Rightarrow>
             (case map_of (d_items (heap w a)) (t_key_name self) of
                Some _ \<Rightarrow> 0
              | None \<Rightarrow>
                  (case d_owner (heap w a) of
                     None \<Rightarrow> 1
                   | Some (p, _) \<Rightarrow>
                       if map_of (d_items (heap w a)) (t_key_name p) = None
                          \<and> t_key_name p \<noteq> t_key_name self
                       then 2 else 1))))"

text \<open>
  \<^verbatim>\<open>MongoMultiValueTable.__setitem__\<close>. The statement \<^verbatim>\<open>data[key_name] = key_val\<close>
  runs the \<^verbatim>\<open>__setitem__\<close> of the object's class: the built-in store for a plain dict,
  and for a \<^verbatim>\<open>MongoMutableDict\<close> the store followed by
  \<^verbatim>\<open>self._parent[self._root_key] = self\<close>, which runs the \<^verbatim>\<open>__setitem__\<close> of the
  parent's class: this function again when the parent is a multi-value table.
\<close>

function MongoMultiValueTable_setitem :: "table \<Rightarrow> string \<Rightarrow> pyobj \<Rightarrow> world \<Rightarrow> unit res" where
  "MongoMultiValueTable_setitem self key_val data w =
     (case data of
        Scalar _ \<Rightarrow> (Inl AssertionError, w)
      | DictRef a \<Rightarrow>
          (case (case map_of (d_items (heap w a)) (t_key_name self) of
                   Some x \<Rightarrow> if x = PStr key_val then (Inr (), w) else (Inl AssertionError, w)
                 | None \<Rightarrow>
                     (case d_owner (heap w a) of
                        None \<Rightarrow> (Inr (), heap_store a (t_key_name self) (PStr key_val) w)
                      | Some (p, root_key) \<Rightarrow>
                          (case t_kind p of
                             SingleValue \<Rightarrow>
                               MongoSingleValueTable_setitem p root_key data
                                 (heap_store a (t_key_name self) (PStr key_val) w)
                           | MultiValue \<Rightarrow>
                               MongoMultiValueTable_setitem p root_key data
                                 (heap_store a (t_key_name self) (PStr key_val) w)))) of
             (Inl e, w2) \<Rightarrow> (Inl e, w2)
           | (Inr _, w2) \<Rightarrow>
               bind_res (coll_update (t_coll self) (t_key_name self) key_val (d_items (heap w2 a))) (\<lambda>_ w3.
                 if mc_on w3 then Memcache_delete key_val (Some (t_mc_prefix self)) w3
                 else return_res () w3) w2))"
  by pat_completeness auto

termination MongoMultiValueTable_setitem
proof (relation "measure setitem_depth")
  show "wf (measure setitem_depth)" by simp
next
  fix self :: table and key_val :: string and data :: pyobj and w :: world
    and a :: nat and own :: "table \<times> string" and p :: table and root_key :: string
  assume data: "data = DictRef a"
    and miss: "map_of (d_items (heap w a)) (t_key_name self) = None"
    and own: "d_owner (heap w a) = Some own" "(p, root_key) = own"
  have upd: "map_of (dict_store f v d) = (map_of d)(f \<mapsto> v)" for f v d
    by (induction d) (auto simp: fun_eq_iff)
  have "setitem_depth (p, root_key, data, heap_store a (t_key_name self) (PStr key_val) w)
        < setitem_depth (self, key_val, data, w)"
    using data miss own
    by (auto simp: setitem_depth_def heap_store_def upd split: option.splits)
  then show "((p, root_key, data, heap_store a (t_key_name self) (PStr key_val) w),
              (self, key_val, data, w)) \<in> measure setitem_depth"
    by simp
qed



text \<open>\<^verbatim>\<open>MongoMutableDict(self, key_val, r)\<close>: a new object holding a copy of \<open>r\<close>.\<close>

definition MongoMutableDict_init :: "table \<Rightarrow> string \<Rightarrow> fields \<Rightarrow> world \<Rightarrow> nat res" where
  "MongoMutableDict_init p root_key d w =
     (Inr (next_addr w),
      w\<lparr>heap := (heap w)(next_addr w := \<lparr>d_items = d, d_owner = Some (p, root_key)\<rparr>),
        next_addr := Suc (next_addr w)\<rparr>)"

definition MongoMultiValueTable_getitem :: "table \<Rightarrow> string \<Rightarrow> world \<Rightarrow> nat res" where
  "MongoMultiValueTable_getitem self key_val =
     bind_res (\<lambda>w. if mc_on w then Memcache_get key_val (Some (t_mc_prefix self)) w
                   else return_res None w) (\<lambda>r0.
     bind_res (case r0 of
                 None \<Rightarrow> coll_find_one (t_coll self) (t_key_name self) key_val
               | Some _ \<Rightarrow> return_res r0) (\<lambda>r.
     case r of
       None \<Rightarrow> raise_res (KeyError key_val)
     | Some d \<Rightarrow>
         bind_res (\<lambda>w. if mc_on w then Memcache_set key_val d (Some (t_mc_prefix self)) w
                       else return_res () w) (\<lambda>_.
           MongoMutableDict_init self key_val d)))"

section \<open>Item read by table kind, and pop\<close>

text \<open>\<^verbatim>\<open>self[key_val]\<close> runs the subclass's \<^verbatim>\<open>__getitem__\<close>.\<close>

definition getitem :: "table \<Rightarrow> string \<Rightarrow> world \<Rightarrow> pyobj res" where
  "getitem self key_val =
     (case t_kind self of
        SingleValue \<Rightarrow>
          bind_res (MongoSingleValueTable_getitem self key_val) (\<lambda>v. return_res (Scalar v))
      | MultiValue \<Rightarrow>
          bind_res (MongoMultiValueTable_getitem self key_val) (\<lambda>a. return_res (DictRef a)))"

definition MongoTable_pop :: "table \<Rightarrow> string \<Rightarrow> world \<Rightarrow> pyobj res" where
  "MongoTable_pop self key_val =
     bind_res (getitem self key_val) (\<lambda>r.
     bind_res (coll_remove (t_coll self) (t_key_name self) key_val) (\<lambda>_.
     bind_res (\<lambda>w. if mc_on w then Memcache_delete key_val (Some (t_mc_prefix self)) w
                   else return_res () w) (\<lambda>_.
     return_res r)))"

section \<open>The facade's tables\<close>

text \<open>The three tables that \<^verbatim>\<open>MongoDBBackend.__init__\<close> builds.\<close>

definition users :: table where
  "users = MongoTable_init MultiValue ''users'' ''login'' ''users''"

definition pending_registrations :: table where
  "pending_registrations =
     MongoTable_init MultiValue ''pending_registrations'' ''pending_registration''
       ''pending_registrations''"

definition roles :: table where
  "roles = MongoTable_init SingleValue ''roles'' ''role'' ''roles''"

section \<open>Notions used in the statements\<close>

text \<open>The namespaced cache key of a table's key, the document the store holds for a key,
  and the cache entry the module can reach (none when no cache is connected).\<close>

definition mc_key :: "table \<Rightarrow> string \<Rightarrow> string" where
  "mc_key t k = Memcache_key k (Some (t_mc_prefix t))"

definition stored :: "table \<Rightarrow> string \<Rightarrow> world \<Rightarrow> fields option" where
  "stored t k w = find (matches (t_key_name t) k) (db w (t_coll t))"

definition cached :: "table \<Rightarrow> string \<Rightarrow> world \<Rightarrow> fields option" where
  "cached t k w = (if mc_on w then map_option fst (mc_server w (mc_key t k)) else None)"

text \<open>What a cache-first read finds, the calls it makes, and the world it leaves when it
  found document \<open>d\<close>.\<close>

definition lookup :: "table \<Rightarrow> string \<Rightarrow> world \<Rightarrow> fields option" where
  "lookup t k w = (case cached t k w of Some d \<Rightarrow> Some d | None \<Rightarrow> stored t k w)"

definition read_calls :: "table \<Rightarrow> string \<Rightarrow> world \<Rightarrow> call list" where
  "read_calls t k w =
     (if mc_on w then [McGet (mc_key t k)] else []) @
     (if cached t k w = None then [FindOne (t_coll t) (t_key_name t) k] else [])"

definition after_read :: "table \<Rightarrow> string \<Rightarrow> fields \<Rightarrow> world \<Rightarrow> world" where
  "after_read t k d w =
     (if mc_on w
      then w\<lparr>mc_server := (mc_server w)(mc_key t k \<mapsto> (d, mc_decay (MC w))),
             calls := calls w @ read_calls t k w @ [McSet (mc_key t k) d (mc_decay (MC w))]\<rparr>
      else w\<lparr>calls := calls w @ read_calls t k w\<rparr>)"

text \<open>The guarded \<^verbatim>\<open>_MC.delete\<close> that ends every write, and the last two statements of
  the multi-value \<^verbatim>\<open>__setitem__\<close> (the upsert of the dict at \<open>a\<close>, then the delete).\<close>

definition invalidate :: "table \<Rightarrow> string \<Rightarrow> world \<Rightarrow> world" where
  "invalidate t k w =
     (if mc_on w
      then w\<lparr>mc_server := (mc_server w)(mc_key t k := None),
             calls := calls w @ [McDelete (mc_key t k)]\<rparr>
      else w)"

definition mv_write :: "table \<Rightarrow> string \<Rightarrow> nat \<Rightarrow> world \<Rightarrow> unit res" where
  "mv_write t k a w =
     (case coll_update (t_coll t) (t_key_name t) k (d_items (heap w a)) w of
        (Inl e, w1) \<Rightarrow> (Inl e, w1)
      | (Inr _, w1) \<Rightarrow> (Inr (), invalidate t k w1))"

text \<open>The pair \<^verbatim>\<open>iteritems\<close> yields for a document (none for a document without the key
  field), the shape of a document that has both the key field and a storage id, and a
  table's collection holding only such documents.\<close>

definition item_of :: "string \<Rightarrow> fields \<Rightarrow> (scalar \<times> fields) option" where
  "item_of key d =
     (case map_of d key of
        None \<Rightarrow> None
      | Some kv \<Rightarrow> Some (kv, dict_remove ''_id'' (dict_remove key d)))"

definition has_key_and_id :: "string \<Rightarrow> fields \<Rightarrow> bool" where
  "has_key_and_id key d = (map_of d key \<noteq> None \<and> map_of d ''_id'' \<noteq> None)"

definition docs_ok :: "table \<Rightarrow> world \<Rightarrow> bool" where
  "docs_ok t w = list_all (has_key_and_id (t_key_name t)) (db w (t_coll t))"

text \<open>An operation is free of the cache in a world when it does not raise AttributeError,
  adds no call to the cache service, leaves the cache service's content alone, and returns the
  same result and the same store whatever content \<open>s\<close> the cache service has.\<close>

fun is_mc_call :: "call \<Rightarrow> bool" where
  "is_mc_call (McGet _) = True"
| "is_mc_call (McSet _ _ _) = True"
| "is_mc_call (McDelete _) = True"
| "is_mc_call _ = False"

definition cache_free :: "(world \<Rightarrow> 'a res) \<Rightarrow> world \<Rightarrow> (string \<rightharpoonup> fields \<times> nat) \<Rightarrow> bool" where
  "cache_free op w s =
     (fst (op w) \<noteq> Inl AttributeError
      \<and> filter is_mc_call (calls (snd (op w))) = filter is_mc_call (calls w)
      \<and> mc_server (snd (op w)) = mc_server w
      \<and> fst (op (w\<lparr>mc_server := s\<rparr>)) = fst (op w)
      \<and> db (snd (op (w\<lparr>mc_server := s\<rparr>))) = db (snd (op w)))"

text \<open>A key is absent when neither the store nor the reachable cache has a document for
  it; it is present with document \<open>d\<close> when the store's document for it is \<open>d\<close> and the
  cache holds nothing else for it.\<close>

definition absent :: "table \<Rightarrow> string \<Rightarrow> world \<Rightarrow> bool" where
  "absent t k w = (stored t k w = None \<and> cached t k w = None)"


text \<open>Two starting worlds for the examples: nothing stored, without and with a connected
  cache (\<^verbatim>\<open>_MC.connect("localhost", 11211, 300)\<close>).\<close>

definition empty_world :: world where
  "empty_world =
     \<lparr>MC = MC_default, mc_server = Map.empty, db = (\<lambda>_. []), next_oid = 0,
      heap = (\<lambda>_. \<lparr>d_items = [], d_owner = None\<rparr>), next_addr = 0, calls = []\<rparr>"

definition cached_world :: world where
  "cached_world =
     empty_world\<lparr>MC := Memcache_connect (Some ''localhost'') (Some 11211) 300 MC_default\<rparr>"

text \<open>A world whose \<^verbatim>\<open>roles\<close> collection holds one document, and a world with a caller's
  dict at address 0.\<close>

definition roles_world :: world where
  "roles_world =
     cached_world\<lparr>db := (\<lambda>_. [])(''roles'' :=
        [[(''_id'', ObjectId 0), (''role'', PStr ''admin''), (''val'', PInt 100)]]),
        next_oid := 1\<rparr>"

definition bob_dict_world :: world where
  "bob_dict_world =
     cached_world\<lparr>heap := (heap cached_world)(0 :=
        \<lparr>d_items = [(''login'', PStr ''bob''), (''email'', PStr ''b@x.com'')], d_owner = None\<rparr>),
        next_addr := 1\<rparr>"


text \<open>Worlds for the write examples: a cache entry that disagrees with the store, callers'
  dicts at address 0 without and with the key field, and the worlds after the set.\<close>

definition stale_world :: world where
  "stale_world =
     roles_world\<lparr>mc_server := [''rolesroleadmin'' \<mapsto>
        ([(''_id'', ObjectId 0), (''role'', PStr ''admin''), (''val'', PInt 1)], 300)]\<rparr>"

definition alice_dict_world :: world where
  "alice_dict_world =
     cached_world\<lparr>heap := (heap cached_world)(0 :=
        \<lparr>d_items = [(''email'', PStr ''a@x.com'')], d_owner = None\<rparr>),
        next_addr := 1\<rparr>"

definition admin_set_world :: world where
  "admin_set_world = snd (MongoSingleValueTable_setitem roles ''admin'' (Scalar (PInt 7)) stale_world)"

definition alice_set_world :: world where
  "alice_set_world = snd (MongoMultiValueTable_setitem users ''alice'' (DictRef 0) alice_dict_world)"



text \<open>A world whose cache already holds the stored documents of one role and one user.\<close>

definition warm_world :: world where
  "warm_world =
     cached_world\<lparr>db := (\<lambda>_. [])
        (''roles'' := [[(''_id'', ObjectId 0), (''role'', PStr ''admin''), (''val'', PInt 100)]],
         ''users'' := [[(''_id'', ObjectId 1), (''login'', PStr ''alice''), (''email'', PStr ''a@x.com'')]]),
        next_oid := 2,
        mc_server := [''rolesroleadmin'' \<mapsto>
            ([(''_id'', ObjectId 0), (''role'', PStr ''admin''), (''val'', PInt 100)], 300),
          ''usersloginalice'' \<mapsto>
            ([(''_id'', ObjectId 1), (''login'', PStr ''alice''), (''email'', PStr ''a@x.com'')], 300)]\<rparr>"



text \<open>A world with one role stored and no cache connected.\<close>

definition plain_world :: world where
  "plain_world =
     empty_world\<lparr>db := (\<lambda>_. [])(''roles'' :=
        [[(''_id'', ObjectId 0), (''role'', PStr ''admin''), (''val'', PInt 100)]]),
        next_oid := 1\<rparr>"

section \<open>Basic facts\<close>

lemmas monad_defs = bind_res_def return_res_def raise_res_def
lemmas mc_defs = Memcache_get_def Memcache_set_def Memcache_delete_def
  client_get_def client_set_def client_delete_def mc_on_def
lemmas coll_defs = coll_find_one_def coll_find_def coll_remove_def
lemmas view_defs = mc_key_def stored_def cached_def lookup_def read_calls_def after_read_def

lemma contains_run:
  "MongoTable_contains t k w =
     (case lookup t k w of
        None \<Rightarrow> (Inr False, w\<lparr>calls := calls w @ read_calls t k w\<rparr>)
      | Some d \<Rightarrow> (Inr True, after_read t k d w))"
  by (auto simp: MongoTable_contains_def view_defs monad_defs mc_defs coll_defs
      split: option.splits)

lemma sv_getitem_run:
  "MongoSingleValueTable_getitem t k w =
     (case lookup t k w of
        None \<Rightarrow> (Inl (KeyError k), w\<lparr>calls := calls w @ read_calls t k w\<rparr>)
      | Some d \<Rightarrow>
          (case map_of d ''val'' of None \<Rightarrow> Inl (KeyError ''val'') | Some v \<Rightarrow> Inr v,
           after_read t k d w))"
  by (auto simp: MongoSingleValueTable_getitem_def view_defs monad_defs mc_defs coll_defs
      split: option.splits)

lemma mv_getitem_run:
  "MongoMultiValueTable_getitem t k w =
     (case lookup t k w of
        None \<Rightarrow> (Inl (KeyError k), w\<lparr>calls := calls w @ read_calls t k w\<rparr>)
      | Some d \<Rightarrow> MongoMutableDict_init t k d (after_read t k d w))"
  by (auto simp: MongoMultiValueTable_getitem_def view_defs monad_defs mc_defs coll_defs
      split: option.splits)


declare MongoMultiValueTable_setitem.simps [simp del]

lemma map_of_dict_store: "map_of (dict_store f v d) = (map_of d)(f \<mapsto> v)"
  by (induction d) (auto simp: fun_eq_iff)

lemma map_of_dict_remove: "map_of (dict_remove f d) = (map_of d)(f := None)"
  by (induction d) (auto simp: fun_eq_iff)

lemma find_replace_first:
  "P new \<Longrightarrow> find P ds \<noteq> None \<Longrightarrow> find P (replace_first P new ds) = Some new"
  by (induction ds) auto

lemma find_append_new:
  "find P ds = None \<Longrightarrow> P new \<Longrightarrow> find P (ds @ [new]) = Some new"
  by (induction ds) auto

lemma find_filter_not: "find P (filter (\<lambda>d. \<not> P d) ds) = None"
  by (induction ds) auto

lemma coll_update_frame:
  "heap (snd (coll_update c key k data w)) = heap w"
  "MC (snd (coll_update c key k data w)) = MC w"
  "mc_server (snd (coll_update c key k data w)) = mc_server w"
  "next_addr (snd (coll_update c key k data w)) = next_addr w"
  "calls (snd (coll_update c key k data w)) = calls w @ [Update c key k data]"
  by (auto simp: coll_update_def Let_def split: option.splits)

lemma coll_update_stored:
  assumes ok: "fst (coll_update c key k data w) = Inr ()" and m: "matches key k data"
  shows "\<exists>doc. find (matches key k) (db (snd (coll_update c key k data w)) c) = Some doc
           \<and> (\<forall>f. map_of doc f = map_of data f \<or> (f = ''_id'' \<and> map_of data ''_id'' = None))"
proof (cases "find (matches key k) (db w c)")
  case None
  show ?thesis
  proof (cases "map_of data ''_id''")
    case nid: None
    have "key \<noteq> ''_id''"
      using m nid by (auto simp: matches_def)
    then have "matches key k ((''_id'', ObjectId (next_oid w)) # data)"
      using m by (simp add: matches_def)
    then show ?thesis
      using None nid by (simp add: coll_update_def Let_def find_append_new)
  next
    case (Some i)
    then show ?thesis
      using None ok m
      by (auto simp: coll_update_def Let_def find_append_new split: if_splits)
  qed
next
  case (Some old)
  have old: "matches key k old"
    using Some by (auto simp: find_Some_iff)
  show ?thesis
  proof (cases "map_of data ''_id''")
    case None
    have "matches key k (keep_id old data)"
      using m old None by (auto simp: matches_def keep_id_def split: option.splits)
    then show ?thesis
      using Some None
      by (auto simp: coll_update_def Let_def find_replace_first keep_id_def split: option.splits)
  next
    case (Some i)
    then show ?thesis
      using \<open>find (matches key k) (db w c) = Some old\<close> ok m
      by (auto simp: coll_update_def Let_def find_replace_first split: if_splits)
  qed
qed


lemma mc_on_coll_update [simp]: "mc_on (snd (coll_update c key k data w)) = mc_on w"
  by (simp add: mc_on_def coll_update_frame)

lemma invalidate_simps [simp]:
  "db (invalidate t k w) = db w"
  "heap (invalidate t k w) = heap w"
  "MC (invalidate t k w) = MC w"
  "next_addr (invalidate t k w) = next_addr w"
  "mc_on (invalidate t k w) = mc_on w"
  "stored t' k' (invalidate t k w) = stored t' k' w"
  "cached t k (invalidate t k w) = None"
  by (auto simp: invalidate_def mc_on_def stored_def cached_def)

lemma sv_setitem_run:
  "MongoSingleValueTable_setitem t k (Scalar v) w =
     (case coll_update (t_coll t) (t_key_name t) k
             (dict_store ''val'' v [(t_key_name t, PStr k)]) w of
        (Inl e, w1) \<Rightarrow> (Inl e, w1)
      | (Inr _, w1) \<Rightarrow> (Inr (), invalidate t k w1))"
  by (auto simp: MongoSingleValueTable_setitem_def invalidate_def mc_key_def monad_defs mc_defs
      split: prod.splits sum.splits option.splits)

lemma sv_setitem_success:
  assumes ok: "MongoSingleValueTable_setitem t k (Scalar v) w = (Inr (), w1)"
    and key: "t_key_name t \<noteq> ''val''"
  shows "cached t k w1 = None"
    and "\<exists>doc. stored t k w1 = Some doc \<and> map_of doc ''val'' = Some v"
proof -
  let ?data = "dict_store ''val'' v [(t_key_name t, PStr k)]"
  let ?u = "coll_update (t_coll t) (t_key_name t) k ?data w"
  have u: "fst ?u = Inr ()" and w1: "w1 = invalidate t k (snd ?u)"
    using ok by (auto simp: sv_setitem_run split: prod.splits sum.splits)
  show "cached t k w1 = None"
    by (simp add: w1)
  have m: "matches (t_key_name t) k ?data"
    using key by (simp add: matches_def)
  obtain doc where doc: "find (matches (t_key_name t) k) (db (snd ?u) (t_coll t)) = Some doc"
    and same: "\<forall>f. map_of doc f = map_of ?data f \<or> (f = ''_id'' \<and> map_of ?data ''_id'' = None)"
    using coll_update_stored [OF u m] by blast
  have "map_of doc ''val'' = Some v"
    using same [rule_format, of "''val''"] key by (auto simp: map_of_dict_store)
  then show "\<exists>doc. stored t k w1 = Some doc \<and> map_of doc ''val'' = Some v"
    using doc by (simp add: w1 stored_def)
qed

lemma heap_store_simps [simp]:
  "db (heap_store a f v w) = db w"
  "MC (heap_store a f v w) = MC w"
  "mc_server (heap_store a f v w) = mc_server w"
  "calls (heap_store a f v w) = calls w"
  "next_addr (heap_store a f v w) = next_addr w"
  "next_oid (heap_store a f v w) = next_oid w"
  "mc_on (heap_store a f v w) = mc_on w"
  "d_owner (heap (heap_store a f v w) b) = d_owner (heap w b)"
  "map_of (d_items (heap (heap_store a f v w) b)) =
     (if b = a then (map_of (d_items (heap w a)))(f \<mapsto> v) else map_of (d_items (heap w b)))"
  by (auto simp: heap_store_def mc_on_def map_of_dict_store)

lemma mv_write_eq:
  "bind_res (coll_update (t_coll t) (t_key_name t) k (d_items (heap w a))) (\<lambda>_ w3.
          if mc_on w3 then Memcache_delete k (Some (t_mc_prefix t)) w3 else return_res () w3) w =
   mv_write t k a w"
  by (auto simp: mv_write_def invalidate_def mc_key_def monad_defs mc_defs
      split: prod.splits sum.splits option.splits)

lemma mv_setitem_Scalar:
  "MongoMultiValueTable_setitem t k (Scalar s) w = (Inl AssertionError, w)"
  by (simp add: MongoMultiValueTable_setitem.simps)

lemma mv_setitem_present:
  "map_of (d_items (heap w a)) (t_key_name t) = Some x \<Longrightarrow>
   MongoMultiValueTable_setitem t k (DictRef a) w =
     (if x = PStr k then mv_write t k a w else (Inl AssertionError, w))"
  by (subst MongoMultiValueTable_setitem.simps) (simp add: mv_write_eq)

lemma mv_setitem_plain:
  "map_of (d_items (heap w a)) (t_key_name t) = None \<Longrightarrow> d_owner (heap w a) = None \<Longrightarrow>
   MongoMultiValueTable_setitem t k (DictRef a) w =
     mv_write t k a (heap_store a (t_key_name t) (PStr k) w)"
  by (subst MongoMultiValueTable_setitem.simps) (simp add: mv_write_eq)

lemma mv_setitem_view_sv:
  "map_of (d_items (heap w a)) (t_key_name t) = None \<Longrightarrow> d_owner (heap w a) = Some (p, rk) \<Longrightarrow>
   t_kind p = SingleValue \<Longrightarrow>
   MongoMultiValueTable_setitem t k (DictRef a) w =
     (Inl AssertionError, heap_store a (t_key_name t) (PStr k) w)"
  by (subst MongoMultiValueTable_setitem.simps)
     (simp add: MongoSingleValueTable_setitem_def raise_res_def)

lemma mv_setitem_view:
  "map_of (d_items (heap w a)) (t_key_name t) = None \<Longrightarrow> d_owner (heap w a) = Some (p, rk) \<Longrightarrow>
   t_kind p = MultiValue \<Longrightarrow>
   MongoMultiValueTable_setitem t k (DictRef a) w =
     (case MongoMultiValueTable_setitem p rk (DictRef a) (heap_store a (t_key_name t) (PStr k) w) of
        (Inl e, w2) \<Rightarrow> (Inl e, w2)
      | (Inr _, w2) \<Rightarrow> mv_write t k a w2)"
  by (subst MongoMultiValueTable_setitem.simps) (simp add: mv_write_eq split: prod.splits sum.splits)


lemma mv_write_snd:
  "snd (mv_write t k a w) =
     (case fst (coll_update (t_coll t) (t_key_name t) k (d_items (heap w a)) w) of
        Inl e \<Rightarrow> snd (coll_update (t_coll t) (t_key_name t) k (d_items (heap w a)) w)
      | Inr _ \<Rightarrow> invalidate t k (snd (coll_update (t_coll t) (t_key_name t) k (d_items (heap w a)) w)))"
  by (cases "coll_update (t_coll t) (t_key_name t) k (d_items (heap w a)) w")
     (auto simp: mv_write_def split: sum.splits)

lemma mv_write_fst:
  "fst (mv_write t k a w) = fst (coll_update (t_coll t) (t_key_name t) k (d_items (heap w a)) w)"
  by (cases "coll_update (t_coll t) (t_key_name t) k (d_items (heap w a)) w")
     (auto simp: mv_write_def split: sum.splits)

lemma mv_write_frame [simp]:
  "heap (snd (mv_write t k a w)) = heap w"
  "MC (snd (mv_write t k a w)) = MC w"
  "mc_on (snd (mv_write t k a w)) = mc_on w"
  "next_addr (snd (mv_write t k a w)) = next_addr w"
  by (simp_all add: mv_write_snd coll_update_frame split: sum.splits)

lemma mv_setitem_heap:
  "d_owner (heap (snd (MongoMultiValueTable_setitem t k data w)) b) = d_owner (heap w b) \<and>
   (map_of (d_items (heap w b)) f = Some x \<longrightarrow>
      map_of (d_items (heap (snd (MongoMultiValueTable_setitem t k data w)) b)) f = Some x)"
proof (induction t k data w rule: MongoMultiValueTable_setitem.induct)
  case (1 self key_val data w)
  show ?case
  proof (cases data)
    case (Scalar s)
    then show ?thesis by (simp add: mv_setitem_Scalar)
  next
    case (DictRef a)
    show ?thesis
    proof (cases "map_of (d_items (heap w a)) (t_key_name self)")
      case (Some y)
      then show ?thesis
        using DictRef by (simp add: mv_setitem_present)
    next
      case None
      show ?thesis
      proof (cases "d_owner (heap w a)")
        case no: None
        then show ?thesis
          using DictRef None by (auto simp: mv_setitem_plain)
      next
        case (Some own)
        obtain p rk where own: "own = (p, rk)" by (cases own)
        show ?thesis
        proof (cases "t_kind p")
          case SingleValue
          then show ?thesis
            using DictRef None Some own by (auto simp: mv_setitem_view_sv)
        next
          case MultiValue
          note IH = 1 [OF DictRef None Some own [symmetric] MultiValue]
          let ?n = "MongoMultiValueTable_setitem p rk (DictRef a)
                      (heap_store a (t_key_name self) (PStr key_val) w)"
          have eq: "heap (snd (MongoMultiValueTable_setitem self key_val (DictRef a) w))
                      = heap (snd ?n)"
            using DictRef None Some own MultiValue
            by (cases ?n) (auto simp: mv_setitem_view split: sum.splits)
          show ?thesis
            using IH DictRef None by (auto simp: eq split: if_splits)
        qed
      qed
    qed
  qed
qed


lemma mv_setitem_ends_in_write:
  assumes ok: "MongoMultiValueTable_setitem t k (DictRef a) w = (Inr (), w1)"
  shows "\<exists>w2. mv_write t k a w2 = (Inr (), w1) \<and> matches (t_key_name t) k (d_items (heap w2 a))"
proof (cases "map_of (d_items (heap w a)) (t_key_name t)")
  case (Some x)
  then show ?thesis
    using ok by (auto simp: mv_setitem_present matches_def split: if_splits)
next
  case None
  let ?w0 = "heap_store a (t_key_name t) (PStr k) w"
  have m0: "map_of (d_items (heap ?w0 a)) (t_key_name t) = Some (PStr k)"
    by simp
  show ?thesis
  proof (cases "d_owner (heap w a)")
    case no: None
    then show ?thesis
      using ok None m0 by (auto simp: mv_setitem_plain matches_def)
  next
    case (Some own)
    obtain p rk where own: "own = (p, rk)" by (cases own)
    let ?n = "MongoMultiValueTable_setitem p rk (DictRef a) ?w0"
    have kind: "t_kind p = MultiValue"
      using ok None Some own by (cases "t_kind p") (simp_all add: mv_setitem_view_sv)
    have w: "mv_write t k a (snd ?n) = (Inr (), w1)"
      using ok None Some own kind by (cases ?n) (auto simp: mv_setitem_view split: sum.splits)
    have "map_of (d_items (heap (snd ?n) a)) (t_key_name t) = Some (PStr k)"
      using mv_setitem_heap [of p rk "DictRef a" ?w0 a "t_key_name t" "PStr k"] m0 by blast
    then show ?thesis
      using w by (auto simp: matches_def)
  qed
qed

lemma mv_setitem_success:
  assumes ok: "MongoMultiValueTable_setitem t k (DictRef a) w = (Inr (), w1)"
  shows "matches (t_key_name t) k (d_items (heap w1 a))"
    and "cached t k w1 = None"
    and "\<exists>doc. stored t k w1 = Some doc \<and>
           (\<forall>f. map_of doc f = map_of (d_items (heap w1 a)) f
                \<or> (f = ''_id'' \<and> map_of (d_items (heap w1 a)) ''_id'' = None))"
proof -
  obtain w2 where wr: "mv_write t k a w2 = (Inr (), w1)"
    and m: "matches (t_key_name t) k (d_items (heap w2 a))"
    using mv_setitem_ends_in_write [OF ok] by blast
  let ?u = "coll_update (t_coll t) (t_key_name t) k (d_items (heap w2 a)) w2"
  have u: "fst ?u = Inr ()" and w1: "w1 = invalidate t k (snd ?u)"
    using wr by (auto simp: mv_write_def split: prod.splits sum.splits)
  have h: "heap w1 = heap w2"
    by (simp add: w1 coll_update_frame)
  show "matches (t_key_name t) k (d_items (heap w1 a))"
    using m by (simp add: h)
  show "cached t k w1 = None"
    by (simp add: w1)
  obtain doc where doc: "find (matches (t_key_name t) k) (db (snd ?u) (t_coll t)) = Some doc"
    and same: "\<forall>f. map_of doc f = map_of (d_items (heap w2 a)) f
                 \<or> (f = ''_id'' \<and> map_of (d_items (heap w2 a)) ''_id'' = None)"
    using coll_update_stored [OF u m] by blast
  show "\<exists>doc. stored t k w1 = Some doc \<and>
           (\<forall>f. map_of doc f = map_of (d_items (heap w1 a)) f
                \<or> (f = ''_id'' \<and> map_of (d_items (heap w1 a)) ''_id'' = None))"
  proof -
    have "stored t k w1 = Some doc"
      using doc by (simp add: w1 stored_def)
    then show ?thesis
      using same unfolding h by blast
  qed
qed

lemma mv_setitem_snd_cases:
  "snd (MongoMultiValueTable_setitem t k (Scalar s) w) = w"
  "map_of (d_items (heap w a)) (t_key_name t) = Some x \<Longrightarrow>
     snd (MongoMultiValueTable_setitem t k (DictRef a) w)
       = (if x = PStr k then snd (mv_write t k a w) else w)"
  "map_of (d_items (heap w a)) (t_key_name t) = None \<Longrightarrow> d_owner (heap w a) = None \<Longrightarrow>
     snd (MongoMultiValueTable_setitem t k (DictRef a) w)
       = snd (mv_write t k a (heap_store a (t_key_name t) (PStr k) w))"
  "map_of (d_items (heap w a)) (t_key_name t) = None \<Longrightarrow> d_owner (heap w a) = Some (p, rk) \<Longrightarrow>
   t_kind p = SingleValue \<Longrightarrow>
     snd (MongoMultiValueTable_setitem t k (DictRef a) w) = heap_store a (t_key_name t) (PStr k) w"
  "map_of (d_items (heap w a)) (t_key_name t) = None \<Longrightarrow> d_owner (heap w a) = Some (p, rk) \<Longrightarrow>
   t_kind p = MultiValue \<Longrightarrow>
     snd (MongoMultiValueTable_setitem t k (DictRef a) w)
       = (case fst (MongoMultiValueTable_setitem p rk (DictRef a)
                      (heap_store a (t_key_name t) (PStr k) w)) of
            Inl e \<Rightarrow> snd (MongoMultiValueTable_setitem p rk (DictRef a)
                            (heap_store a (t_key_name t) (PStr k) w))
          | Inr _ \<Rightarrow> snd (mv_write t k a (snd (MongoMultiValueTable_setitem p rk (DictRef a)
                            (heap_store a (t_key_name t) (PStr k) w)))))"
  by (auto simp: mv_setitem_Scalar mv_setitem_present mv_setitem_plain mv_setitem_view
      mv_setitem_view_sv split: prod.splits sum.splits)

lemma mv_setitem_frame:
  fixes Q :: "world \<Rightarrow> 'x"
  assumes hs: "\<And>a f v w. Q (heap_store a f v w) = Q w"
    and wr: "\<And>t k a w. Q (snd (mv_write t k a w)) = Q w"
  shows "Q (snd (MongoMultiValueTable_setitem t k data w)) = Q w"
proof (induction t k data w rule: MongoMultiValueTable_setitem.induct)
  case (1 self key_val data w)
  show ?case
  proof (cases data)
    case (Scalar s)
    then show ?thesis by (simp add: mv_setitem_snd_cases)
  next
    case (DictRef a)
    show ?thesis
    proof (cases "map_of (d_items (heap w a)) (t_key_name self)")
      case (Some y)
      then show ?thesis
        using DictRef by (simp add: mv_setitem_snd_cases wr)
    next
      case None
      show ?thesis
      proof (cases "d_owner (heap w a)")
        case no: None
        then show ?thesis
          using DictRef None by (simp add: mv_setitem_snd_cases wr hs)
      next
        case (Some own)
        obtain p rk where own: "own = (p, rk)" by (cases own)
        show ?thesis
        proof (cases "t_kind p")
          case SingleValue
          then show ?thesis
            using DictRef None Some own by (simp add: mv_setitem_snd_cases hs)
        next
          case MultiValue
          note IH = 1 [OF DictRef None Some own [symmetric] MultiValue]
          show ?thesis
            using DictRef None Some own MultiValue IH
            by (simp add: mv_setitem_snd_cases wr hs split: sum.splits)
        qed
      qed
    qed
  qed
qed

lemma mv_setitem_next_addr [simp]:
  "next_addr (snd (MongoMultiValueTable_setitem t k data w)) = next_addr w"
  by (rule mv_setitem_frame) simp_all

lemma mv_setitem_MC [simp]:
  "MC (snd (MongoMultiValueTable_setitem t k data w)) = MC w"
  by (rule mv_setitem_frame) simp_all

lemma mv_setitem_mc_on [simp]:
  "mc_on (snd (MongoMultiValueTable_setitem t k data w)) = mc_on w"
  by (rule mv_setitem_frame) simp_all


lemmas example_defs = users_def roles_def pending_registrations_def MongoTable_init_def
  empty_world_def cached_world_def MC_default_def Memcache_init_def Memcache_connect_def
  Memcache_key_def

section \<open>Absent keys\<close>

text \<open>
  C2: for a key with no document in the store and no cache entry, \<^verbatim>\<open>__contains__\<close> returns
  False, and \<^verbatim>\<open>__getitem__\<close> of the single-value and of the multi-value table raises
  KeyError for that key instead of returning a value.
\<close>

theorem absent_key_not_found:
  assumes "absent t k w"
  shows "fst (MongoTable_contains t k w) = Inr False
       \<and> fst (MongoSingleValueTable_getitem t k w) = Inl (KeyError k)
       \<and> fst (MongoMultiValueTable_getitem t k w) = Inl (KeyError k)"
  using assms
  by (simp add: absent_def contains_run sv_getitem_run mv_getitem_run lookup_def)

theorem absent_key_not_found_witness:
  "absent roles ''editor'' roles_world
   \<and> fst (MongoTable_contains roles ''editor'' roles_world) = Inr False
   \<and> fst (MongoSingleValueTable_getitem roles ''editor'' roles_world) = Inl (KeyError ''editor'')
   \<and> fst (MongoMultiValueTable_getitem roles ''editor'' roles_world) = Inl (KeyError ''editor'')"
proof -
  have a: "absent roles ''editor'' roles_world"
    by (simp add: absent_def view_defs mc_on_def matches_def roles_world_def example_defs)
  show ?thesis
    using a absent_key_not_found [OF a] by simp
qed

section \<open>Argument checks of the two set operations\<close>

text \<open>
  C6: the single-value \<^verbatim>\<open>__setitem__\<close> given a dict, the multi-value \<^verbatim>\<open>__setitem__\<close>
  given a non-dict, and the multi-value \<^verbatim>\<open>__setitem__\<close> given a dict whose key field
  holds a value other than the key, each raise AssertionError and leave the world as it
  was: nothing is written to the store or to the cache.
\<close>

theorem set_argument_validation:
  "MongoSingleValueTable_setitem t k (DictRef a) w = (Inl AssertionError, w)
   \<and> MongoMultiValueTable_setitem t k (Scalar v) w = (Inl AssertionError, w)
   \<and> (map_of (d_items (heap w a)) (t_key_name t) = Some x \<and> x \<noteq> PStr k
        \<longrightarrow> MongoMultiValueTable_setitem t k (DictRef a) w = (Inl AssertionError, w))"
  by (simp add: MongoSingleValueTable_setitem_def raise_res_def mv_setitem_Scalar mv_setitem_present)

theorem set_argument_validation_witness:
  "map_of (d_items (heap bob_dict_world 0)) (t_key_name users) = Some (PStr ''bob'')
   \<and> PStr ''bob'' \<noteq> PStr ''alice''
   \<and> MongoMultiValueTable_setitem users ''alice'' (DictRef 0) bob_dict_world
       = (Inl AssertionError, bob_dict_world)"
proof -
  have h: "map_of (d_items (heap bob_dict_world 0)) (t_key_name users) = Some (PStr ''bob'')"
    by (simp add: bob_dict_world_def example_defs)
  have n: "PStr ''bob'' \<noteq> PStr ''alice''"
    by simp
  show ?thesis
    using h n set_argument_validation [of users "''alice''" 0 bob_dict_world _ "PStr ''bob''"]
    by blast
qed

section \<open>Reads, and pop\<close>

lemma pop_run:
  "MongoTable_pop t k w =
     (case getitem t k w of
        (Inl e, w1) \<Rightarrow> (Inl e, w1)
      | (Inr r, w1) \<Rightarrow>
          (Inr r, invalidate t k (snd (coll_remove (t_coll t) (t_key_name t) k w1))))"
  by (auto simp: MongoTable_pop_def invalidate_def mc_key_def coll_remove_def monad_defs mc_defs
      split: prod.splits sum.splits option.splits)

lemma getitem_run:
  "getitem t k w =
     (case lookup t k w of
        None \<Rightarrow> (Inl (KeyError k), w\<lparr>calls := calls w @ read_calls t k w\<rparr>)
      | Some d \<Rightarrow>
          (case t_kind t of
             SingleValue \<Rightarrow>
               (case map_of d ''val'' of None \<Rightarrow> Inl (KeyError ''val'') | Some v \<Rightarrow> Inr (Scalar v),
                after_read t k d w)
           | MultiValue \<Rightarrow> (Inr (DictRef (next_addr w)),
                snd (MongoMutableDict_init t k d (after_read t k d w)))))"
  by (auto simp: getitem_def sv_getitem_run mv_getitem_run monad_defs MongoMutableDict_init_def
      after_read_def split: option.splits kind.splits)


lemma absent_lookup: "absent t k w \<Longrightarrow> lookup t k w = None"
  by (auto simp: absent_def lookup_def)

lemma after_read_simps [simp]:
  "db (after_read t k d w) = db w"
  "heap (after_read t k d w) = heap w"
  "MC (after_read t k d w) = MC w"
  "mc_on (after_read t k d w) = mc_on w"
  "next_addr (after_read t k d w) = next_addr w"
  "next_oid (after_read t k d w) = next_oid w"
  "stored t' k' (after_read t k d w) = stored t' k' w"
  by (auto simp: after_read_def mc_on_def stored_def)

lemma new_dict_simps [simp]:
  "db (snd (MongoMutableDict_init t k d w)) = db w"
  "MC (snd (MongoMutableDict_init t k d w)) = MC w"
  "mc_server (snd (MongoMutableDict_init t k d w)) = mc_server w"
  "calls (snd (MongoMutableDict_init t k d w)) = calls w"
  "mc_on (snd (MongoMutableDict_init t k d w)) = mc_on w"
  "fst (MongoMutableDict_init t k d w) = Inr (next_addr w)"
  "next_addr (snd (MongoMutableDict_init t k d w)) = Suc (next_addr w)"
  "heap (snd (MongoMutableDict_init t k d w)) (next_addr w) = \<lparr>d_items = d, d_owner = Some (t, k)\<rparr>"
  "stored t' k' (snd (MongoMutableDict_init t k d w)) = stored t' k' w"
  "cached t' k' (snd (MongoMutableDict_init t k d w)) = cached t' k' w"
  by (auto simp: MongoMutableDict_init_def mc_on_def stored_def cached_def)

lemma removed_simps [simp]:
  "stored t k (snd (coll_remove (t_coll t) (t_key_name t) k w)) = None"
  "heap (snd (coll_remove c key k w)) = heap w"
  "MC (snd (coll_remove c key k w)) = MC w"
  "mc_on (snd (coll_remove c key k w)) = mc_on w"
  "mc_server (snd (coll_remove c key k w)) = mc_server w"
  "db (snd (coll_remove c key k w)) c = filter (\<lambda>x. \<not> matches key k x) (db w c)"
  by (auto simp: coll_remove_def stored_def find_filter_not mc_on_def)








section \<open>A read after a write\<close>

lemma invalidate_last:
  "mc_on (invalidate t k u) \<Longrightarrow> last (calls (invalidate t k u)) = McDelete (mc_key t k)"
  by (simp add: invalidate_def mc_on_def split: if_splits)

lemma sv_setitem_invalidates:
  assumes ok: "MongoSingleValueTable_setitem t k (Scalar v) w = (Inr (), w1)"
  shows "cached t k w1 = None"
proof -
  have "\<exists>u. w1 = invalidate t k u"
    using ok by (auto simp: sv_setitem_run split: prod.splits sum.splits)
  then show ?thesis by auto
qed

lemma lookup_fresh:
  "cached t k w = None \<Longrightarrow> stored t k w = Some d \<Longrightarrow> lookup t k w = Some d"
  by (simp add: lookup_def)

lemma lookup_after_read:
  "lookup t k w = Some d \<Longrightarrow> lookup t k (after_read t k d w) = Some d"
  by (auto simp: lookup_def cached_def stored_def after_read_def mc_on_def split: option.splits if_splits)

lemma lookup_new_dict [simp]:
  "lookup t' k' (snd (MongoMutableDict_init t k d w)) = lookup t' k' w"
  by (simp add: lookup_def split: option.splits)

lemma sv_get_found:
  "lookup t k w = Some d \<Longrightarrow> map_of d ''val'' = Some v \<Longrightarrow>
   MongoSingleValueTable_getitem t k w = (Inr v, after_read t k d w)"
  by (simp add: sv_getitem_run)

lemma mv_get_found:
  "lookup t k w = Some d \<Longrightarrow>
   MongoMultiValueTable_getitem t k w = MongoMutableDict_init t k d (after_read t k d w)"
  by (simp add: mv_getitem_run)

lemma mv_get_found_view:
  assumes "lookup t k w = Some d"
  shows "fst (MongoMultiValueTable_getitem t k w) = Inr (next_addr w)"
    and "heap (snd (MongoMultiValueTable_getitem t k w)) (next_addr w)
           = \<lparr>d_items = d, d_owner = Some (t, k)\<rparr>"
    and "lookup t k (snd (MongoMultiValueTable_getitem t k w)) = Some d"
    and "next_addr (snd (MongoMultiValueTable_getitem t k w)) = Suc (next_addr w)"
  using assms new_dict_simps(8) [of t k d "after_read t k d w"]
  by (simp_all add: mv_get_found lookup_after_read)

lemmas eval_defs = view_defs mc_on_def matches_def example_defs coll_update_def keep_id_def
  invalidate_def mv_write_def heap_store_def

lemma admin_set_ok:
  "MongoSingleValueTable_setitem roles ''admin'' (Scalar (PInt 7)) stale_world = (Inr (), admin_set_world)"
  by (simp add: admin_set_world_def sv_setitem_run stale_world_def roles_world_def eval_defs)

lemma alice_set_ok:
  "MongoMultiValueTable_setitem users ''alice'' (DictRef 0) alice_dict_world = (Inr (), alice_set_world)"
  by (simp add: alice_set_world_def mv_setitem_plain alice_dict_world_def eval_defs)






text \<open>
  C4: once a set has completed, no cache entry is left under the key's namespaced cache
  key (with a cache connected, the last call of the set is the cache delete for that key),
  and the get that follows returns the value just written: the scalar for the single-value
  table (whose key field is not itself named \<^verbatim>\<open>val\<close>), and for the multi-value table
  a view that agrees with the written record on every field, apart from the \<^verbatim>\<open>_id\<close>
  the store adds to a record that has none.
\<close>

theorem write_invalidate:
  "(MongoSingleValueTable_setitem t k (Scalar v) w = (Inr (), w1) \<longrightarrow>
      cached t k w1 = None
      \<and> (mc_on w1 \<longrightarrow> last (calls w1) = McDelete (mc_key t k))
      \<and> (t_key_name t \<noteq> ''val'' \<longrightarrow> fst (MongoSingleValueTable_getitem t k w1) = Inr v))
   \<and> (MongoMultiValueTable_setitem t2 k2 (DictRef a) w2 = (Inr (), w3) \<longrightarrow>
      cached t2 k2 w3 = None
      \<and> (mc_on w3 \<longrightarrow> last (calls w3) = McDelete (mc_key t2 k2))
      \<and> fst (MongoMultiValueTable_getitem t2 k2 w3) = Inr (next_addr w3)
      \<and> (map_of (d_items (heap (snd (MongoMultiValueTable_getitem t2 k2 w3)) (next_addr w3))) f
            = map_of (d_items (heap w3 a)) f
          \<or> f = ''_id'' \<and> map_of (d_items (heap w3 a)) ''_id'' = None))"
proof (intro conjI impI)
  assume ok: "MongoSingleValueTable_setitem t k (Scalar v) w = (Inr (), w1)"
  show "cached t k w1 = None"
    using ok by (rule sv_setitem_invalidates)
next
  assume ok: "MongoSingleValueTable_setitem t k (Scalar v) w = (Inr (), w1)" and on: "mc_on w1"
  have "\<exists>u. w1 = invalidate t k u"
    using ok by (auto simp: sv_setitem_run split: prod.splits sum.splits)
  then show "last (calls w1) = McDelete (mc_key t k)"
    using on by (auto simp: invalidate_last)
next
  assume ok: "MongoSingleValueTable_setitem t k (Scalar v) w = (Inr (), w1)"
    and key: "t_key_name t \<noteq> ''val''"
  have c: "cached t k w1 = None"
    using ok by (rule sv_setitem_invalidates)
  obtain doc where doc: "stored t k w1 = Some doc" "map_of doc ''val'' = Some v"
    using sv_setitem_success(2) [OF ok key] by blast
  show "fst (MongoSingleValueTable_getitem t k w1) = Inr v"
    using doc by (simp add: sv_get_found [OF lookup_fresh [OF c doc(1)]])
next
  assume ok: "MongoMultiValueTable_setitem t2 k2 (DictRef a) w2 = (Inr (), w3)" and on: "mc_on w3"
  obtain w' where wr: "mv_write t2 k2 a w' = (Inr (), w3)"
    using mv_setitem_ends_in_write [OF ok] by blast
  have "\<exists>u. w3 = invalidate t2 k2 u"
    using wr
    by (cases "coll_update (t_coll t2) (t_key_name t2) k2 (d_items (heap w' a)) w'")
       (auto simp: mv_write_def split: sum.splits)
  then show "last (calls w3) = McDelete (mc_key t2 k2)"
    using on by (auto simp: invalidate_last)
next
  assume ok: "MongoMultiValueTable_setitem t2 k2 (DictRef a) w2 = (Inr (), w3)"
  show "cached t2 k2 w3 = None"
    using ok by (rule mv_setitem_success(2))
next
  assume ok: "MongoMultiValueTable_setitem t2 k2 (DictRef a) w2 = (Inr (), w3)"
  have c: "cached t2 k2 w3 = None"
    using ok by (rule mv_setitem_success(2))
  obtain doc where doc: "stored t2 k2 w3 = Some doc"
    and same: "\<forall>f. map_of doc f = map_of (d_items (heap w3 a)) f
                 \<or> (f = ''_id'' \<and> map_of (d_items (heap w3 a)) ''_id'' = None)"
    using mv_setitem_success(3) [OF ok] by blast
  note l = lookup_fresh [OF c doc]
  show "fst (MongoMultiValueTable_getitem t2 k2 w3) = Inr (next_addr w3)"
    by (rule mv_get_found_view(1) [OF l])
  show "map_of (d_items (heap (snd (MongoMultiValueTable_getitem t2 k2 w3)) (next_addr w3))) f
            = map_of (d_items (heap w3 a)) f
          \<or> f = ''_id'' \<and> map_of (d_items (heap w3 a)) ''_id'' = None"
    using same by (simp add: mv_get_found_view(2) [OF l])
qed

theorem write_invalidate_witness:
  "MongoSingleValueTable_setitem roles ''admin'' (Scalar (PInt 7)) stale_world = (Inr (), admin_set_world)
   \<and> t_key_name roles \<noteq> ''val''
   \<and> cached roles ''admin'' stale_world
       = Some [(''_id'', ObjectId 0), (''role'', PStr ''admin''), (''val'', PInt 1)]
   \<and> cached roles ''admin'' admin_set_world = None
   \<and> last (calls admin_set_world) = McDelete ''rolesroleadmin''
   \<and> fst (MongoSingleValueTable_getitem roles ''admin'' admin_set_world) = Inr (PInt 7)
   \<and> MongoMultiValueTable_setitem users ''alice'' (DictRef 0) alice_dict_world = (Inr (), alice_set_world)
   \<and> cached users ''alice'' alice_set_world = None
   \<and> fst (MongoMultiValueTable_getitem users ''alice'' alice_set_world) = Inr 1
   \<and> map_of (d_items (heap (snd (MongoMultiValueTable_getitem users ''alice'' alice_set_world)) 1))
        ''email'' = Some (PStr ''a@x.com'')"
proof -
  have k: "t_key_name roles \<noteq> ''val''"
    by (simp add: example_defs)
  have c: "cached roles ''admin'' stale_world
       = Some [(''_id'', ObjectId 0), (''role'', PStr ''admin''), (''val'', PInt 1)]"
    by (simp add: stale_world_def roles_world_def eval_defs)
  have n: "next_addr alice_set_world = 1"
    "map_of (d_items (heap alice_set_world 0)) ''email'' = Some (PStr ''a@x.com'')"
    by (simp_all add: alice_set_world_def mv_setitem_plain alice_dict_world_def eval_defs)
  have on: "mc_on admin_set_world" "mc_key roles ''admin'' = ''rolesroleadmin''"
    by (simp_all add: admin_set_world_def sv_setitem_run stale_world_def roles_world_def eval_defs)
  show ?thesis
    using admin_set_ok alice_set_ok k c n on
      write_invalidate [of roles "''admin''" "PInt 7" stale_world admin_set_world
        users "''alice''" 0 alice_dict_world alice_set_world "''email''"]
    by simp
qed




section \<open>Cache writes of a read\<close>

lemma get_worlds:
  "snd (MongoSingleValueTable_getitem t k w) =
     (case lookup t k w of None \<Rightarrow> w\<lparr>calls := calls w @ read_calls t k w\<rparr>
      | Some d \<Rightarrow> after_read t k d w)"
  "calls (snd (MongoMultiValueTable_getitem t k w)) =
     calls (case lookup t k w of None \<Rightarrow> w\<lparr>calls := calls w @ read_calls t k w\<rparr>
      | Some d \<Rightarrow> after_read t k d w)"
  "mc_server (snd (MongoMultiValueTable_getitem t k w)) =
     mc_server (case lookup t k w of None \<Rightarrow> w\<lparr>calls := calls w @ read_calls t k w\<rparr>
      | Some d \<Rightarrow> after_read t k d w)"
  by (simp_all add: sv_getitem_run mv_getitem_run split: option.splits)

lemma cached_Some_on: "cached t k w = Some d \<Longrightarrow> mc_on w"
  by (auto simp: cached_def split: if_splits)

lemma warm_world_eval:
  "cached roles ''admin'' warm_world
     = Some [(''_id'', ObjectId 0), (''role'', PStr ''admin''), (''val'', PInt 100)]"
  "cached users ''alice'' warm_world
     = Some [(''_id'', ObjectId 1), (''login'', PStr ''alice''), (''email'', PStr ''a@x.com'')]"
  "calls warm_world = []" "mc_decay (MC warm_world) = 300"
  "mc_key roles ''admin'' = ''rolesroleadmin''" "mc_key users ''alice'' = ''usersloginalice''"
  by (simp_all add: warm_world_def eval_defs)

text \<open>
  C5, as stated, fails: the guarded \<^verbatim>\<open>_MC.set\<close> of both \<^verbatim>\<open>__getitem__\<close> methods runs
  whenever a document was found, also when the cache itself supplied it. On a cache hit
  the calls are the cache get followed by a cache set, with no \<^verbatim>\<open>find_one\<close> between.
\<close>

theorem get_cache_write_on_hit_counterexample:
  "cached roles ''admin'' warm_world
     = Some [(''_id'', ObjectId 0), (''role'', PStr ''admin''), (''val'', PInt 100)]
   \<and> fst (MongoSingleValueTable_getitem roles ''admin'' warm_world) = Inr (PInt 100)
   \<and> calls (snd (MongoSingleValueTable_getitem roles ''admin'' warm_world))
       = [McGet ''rolesroleadmin'',
          McSet ''rolesroleadmin''
            [(''_id'', ObjectId 0), (''role'', PStr ''admin''), (''val'', PInt 100)] 300]
   \<and> cached users ''alice'' warm_world
       = Some [(''_id'', ObjectId 1), (''login'', PStr ''alice''), (''email'', PStr ''a@x.com'')]
   \<and> fst (MongoMultiValueTable_getitem users ''alice'' warm_world) = Inr 0
   \<and> calls (snd (MongoMultiValueTable_getitem users ''alice'' warm_world))
       = [McGet ''usersloginalice'',
          McSet ''usersloginalice''
            [(''_id'', ObjectId 1), (''login'', PStr ''alice''), (''email'', PStr ''a@x.com'')] 300]"
  by (simp add: sv_getitem_run mv_getitem_run MongoMutableDict_init_def warm_world_def eval_defs)

text \<open>
  C5, amended: with a cache connected, get of a key that is found writes the cache entry
  of that key once, after a store fetch (cache miss) and after a cache hit alike; on a hit
  it stores the document it has just read from the cache again, under the same key and with
  the configured lifetime, and the store is not queried. With no cache connected, or when
  the key is absent, get performs no cache write.
\<close>

theorem get_cache_writes:
  "(cached t k w = Some d \<longrightarrow>
      calls (snd (MongoSingleValueTable_getitem t k w))
        = calls w @ [McGet (mc_key t k), McSet (mc_key t k) d (mc_decay (MC w))]
      \<and> calls (snd (MongoMultiValueTable_getitem t k w))
        = calls w @ [McGet (mc_key t k), McSet (mc_key t k) d (mc_decay (MC w))]
      \<and> mc_server (snd (MongoSingleValueTable_getitem t k w))
        = (mc_server w)(mc_key t k \<mapsto> (d, mc_decay (MC w)))
      \<and> mc_server (snd (MongoMultiValueTable_getitem t k w))
        = (mc_server w)(mc_key t k \<mapsto> (d, mc_decay (MC w))))
   \<and> (cached t2 k2 w2 = None \<and> stored t2 k2 w2 = Some d2 \<longrightarrow>
      calls (snd (MongoSingleValueTable_getitem t2 k2 w2))
        = calls w2 @ (if mc_on w2 then [McGet (mc_key t2 k2)] else [])
            @ [FindOne (t_coll t2) (t_key_name t2) k2]
            @ (if mc_on w2 then [McSet (mc_key t2 k2) d2 (mc_decay (MC w2))] else [])
      \<and> calls (snd (MongoMultiValueTable_getitem t2 k2 w2))
        = calls w2 @ (if mc_on w2 then [McGet (mc_key t2 k2)] else [])
            @ [FindOne (t_coll t2) (t_key_name t2) k2]
            @ (if mc_on w2 then [McSet (mc_key t2 k2) d2 (mc_decay (MC w2))] else [])
      \<and> mc_server (snd (MongoSingleValueTable_getitem t2 k2 w2))
        = (if mc_on w2 then (mc_server w2)(mc_key t2 k2 \<mapsto> (d2, mc_decay (MC w2))) else mc_server w2)
      \<and> mc_server (snd (MongoMultiValueTable_getitem t2 k2 w2))
        = (if mc_on w2 then (mc_server w2)(mc_key t2 k2 \<mapsto> (d2, mc_decay (MC w2))) else mc_server w2))
   \<and> (absent t3 k3 w3 \<longrightarrow>
      calls (snd (MongoSingleValueTable_getitem t3 k3 w3))
        = calls w3 @ (if mc_on w3 then [McGet (mc_key t3 k3)] else [])
            @ [FindOne (t_coll t3) (t_key_name t3) k3]
      \<and> calls (snd (MongoMultiValueTable_getitem t3 k3 w3))
        = calls w3 @ (if mc_on w3 then [McGet (mc_key t3 k3)] else [])
            @ [FindOne (t_coll t3) (t_key_name t3) k3]
      \<and> mc_server (snd (MongoSingleValueTable_getitem t3 k3 w3)) = mc_server w3
      \<and> mc_server (snd (MongoMultiValueTable_getitem t3 k3 w3)) = mc_server w3)"
proof (intro conjI impI)
  assume c: "cached t k w = Some d"
  then have l: "lookup t k w = Some d" and on: "mc_on w"
    by (simp_all add: lookup_def cached_Some_on)
  show "calls (snd (MongoSingleValueTable_getitem t k w))
        = calls w @ [McGet (mc_key t k), McSet (mc_key t k) d (mc_decay (MC w))]"
    "calls (snd (MongoMultiValueTable_getitem t k w))
        = calls w @ [McGet (mc_key t k), McSet (mc_key t k) d (mc_decay (MC w))]"
    "mc_server (snd (MongoSingleValueTable_getitem t k w))
        = (mc_server w)(mc_key t k \<mapsto> (d, mc_decay (MC w)))"
    "mc_server (snd (MongoMultiValueTable_getitem t k w))
        = (mc_server w)(mc_key t k \<mapsto> (d, mc_decay (MC w)))"
    using c on by (simp_all add: get_worlds l after_read_def read_calls_def)
next
  assume h: "cached t2 k2 w2 = None \<and> stored t2 k2 w2 = Some d2"
  then have l: "lookup t2 k2 w2 = Some d2"
    by (simp add: lookup_def)
  show "calls (snd (MongoSingleValueTable_getitem t2 k2 w2))
        = calls w2 @ (if mc_on w2 then [McGet (mc_key t2 k2)] else [])
            @ [FindOne (t_coll t2) (t_key_name t2) k2]
            @ (if mc_on w2 then [McSet (mc_key t2 k2) d2 (mc_decay (MC w2))] else [])"
    "calls (snd (MongoMultiValueTable_getitem t2 k2 w2))
        = calls w2 @ (if mc_on w2 then [McGet (mc_key t2 k2)] else [])
            @ [FindOne (t_coll t2) (t_key_name t2) k2]
            @ (if mc_on w2 then [McSet (mc_key t2 k2) d2 (mc_decay (MC w2))] else [])"
    "mc_server (snd (MongoSingleValueTable_getitem t2 k2 w2))
        = (if mc_on w2 then (mc_server w2)(mc_key t2 k2 \<mapsto> (d2, mc_decay (MC w2))) else mc_server w2)"
    "mc_server (snd (MongoMultiValueTable_getitem t2 k2 w2))
        = (if mc_on w2 then (mc_server w2)(mc_key t2 k2 \<mapsto> (d2, mc_decay (MC w2))) else mc_server w2)"
    using h by (simp_all add: get_worlds l after_read_def read_calls_def)
next
  assume a: "absent t3 k3 w3"
  then have l: "lookup t3 k3 w3 = None" and c: "cached t3 k3 w3 = None"
    by (simp_all add: absent_lookup absent_def)
  show "calls (snd (MongoSingleValueTable_getitem t3 k3 w3))
        = calls w3 @ (if mc_on w3 then [McGet (mc_key t3 k3)] else [])
            @ [FindOne (t_coll t3) (t_key_name t3) k3]"
    "calls (snd (MongoMultiValueTable_getitem t3 k3 w3))
        = calls w3 @ (if mc_on w3 then [McGet (mc_key t3 k3)] else [])
            @ [FindOne (t_coll t3) (t_key_name t3) k3]"
    "mc_server (snd (MongoSingleValueTable_getitem t3 k3 w3)) = mc_server w3"
    "mc_server (snd (MongoMultiValueTable_getitem t3 k3 w3)) = mc_server w3"
    using c by (simp_all add: get_worlds l read_calls_def)
qed

theorem get_cache_writes_witness:
  "cached roles ''admin'' warm_world
     = Some [(''_id'', ObjectId 0), (''role'', PStr ''admin''), (''val'', PInt 100)]
   \<and> calls (snd (MongoSingleValueTable_getitem roles ''admin'' warm_world))
       = [McGet ''rolesroleadmin'',
          McSet ''rolesroleadmin''
            [(''_id'', ObjectId 0), (''role'', PStr ''admin''), (''val'', PInt 100)] 300]
   \<and> cached roles ''admin'' roles_world = None
   \<and> stored roles ''admin'' roles_world
       = Some [(''_id'', ObjectId 0), (''role'', PStr ''admin''), (''val'', PInt 100)]
   \<and> calls (snd (MongoSingleValueTable_getitem roles ''admin'' roles_world))
       = [McGet ''rolesroleadmin'', FindOne ''roles'' ''role'' ''admin'',
          McSet ''rolesroleadmin''
            [(''_id'', ObjectId 0), (''role'', PStr ''admin''), (''val'', PInt 100)] 300]
   \<and> absent roles ''editor'' roles_world
   \<and> calls (snd (MongoSingleValueTable_getitem roles ''editor'' roles_world))
       = [McGet ''rolesroleeditor'', FindOne ''roles'' ''role'' ''editor'']
   \<and> mc_server (snd (MongoSingleValueTable_getitem roles ''editor'' roles_world))
       = mc_server roles_world"
proof -
  let ?admin = "[(''_id'', ObjectId 0), (''role'', PStr ''admin''), (''val'', PInt 100)]"
  have h: "cached roles ''admin'' roles_world = None"
    "stored roles ''admin'' roles_world = Some ?admin"
    "absent roles ''editor'' roles_world"
    by (simp_all add: absent_def roles_world_def eval_defs)
  have e: "calls roles_world = []" "mc_on roles_world" "mc_decay (MC roles_world) = 300"
    "mc_key roles ''editor'' = ''rolesroleeditor''"
    "t_coll roles = ''roles''" "t_key_name roles = ''role''"
    by (simp_all add: roles_world_def eval_defs)
  show ?thesis
    using h warm_world_eval(1)
      get_cache_writes [of roles "''admin''" warm_world ?admin roles "''admin''" roles_world ?admin
        roles "''editor''" roles_world]
    by (simp add: e warm_world_eval)
qed

section \<open>The caller's dict\<close>

lemma mv_setitem_injected:
  assumes miss: "map_of (d_items (heap w a)) (t_key_name t) = None"
  shows "map_of (d_items (heap (snd (MongoMultiValueTable_setitem t k (DictRef a) w)) a))
           (t_key_name t) = Some (PStr k)"
proof (cases "d_owner (heap w a)")
  case None
  then show ?thesis
    using miss by (simp add: mv_setitem_plain)
next
  case (Some own)
  obtain p rk where own: "own = (p, rk)" by (cases own)
  let ?w0 = "heap_store a (t_key_name t) (PStr k) w"
  let ?n = "MongoMultiValueTable_setitem p rk (DictRef a) ?w0"
  show ?thesis
  proof (cases "t_kind p")
    case SingleValue
    then show ?thesis
      using miss Some own by (simp add: mv_setitem_view_sv)
  next
    case MultiValue
    have eq: "heap (snd (MongoMultiValueTable_setitem t k (DictRef a) w)) = heap (snd ?n)"
      using miss Some own MultiValue by (cases ?n) (auto simp: mv_setitem_view split: sum.splits)
    have "map_of (d_items (heap (snd ?n) a)) (t_key_name t) = Some (PStr k)"
      using mv_setitem_heap [of p rk "DictRef a" ?w0 a "t_key_name t" "PStr k"] by simp
    then show ?thesis
      by (simp add: eq)
  qed
qed

text \<open>
  C9: the multi-value \<^verbatim>\<open>__setitem__\<close>, given a dict without the key field, stores the key
  field into that very object: after the call (whether or not the upsert then succeeds) the
  object at the caller's address has the key field with the key as its value, every field
  it had before is unchanged, and for a plain dict no other object of the heap is touched.
\<close>

theorem set_injects_key_in_place:
  assumes "map_of (d_items (heap w a)) (t_key_name t) = None"
  shows "map_of (d_items (heap (snd (MongoMultiValueTable_setitem t k (DictRef a) w)) a))
           (t_key_name t) = Some (PStr k)
       \<and> (map_of (d_items (heap w a)) f = Some x \<longrightarrow>
            map_of (d_items (heap (snd (MongoMultiValueTable_setitem t k (DictRef a) w)) a)) f
              = Some x)
       \<and> (d_owner (heap w a) = None \<longrightarrow>
            heap (snd (MongoMultiValueTable_setitem t k (DictRef a) w))
              = (heap w)(a := (heap w a)
                  \<lparr>d_items := dict_store (t_key_name t) (PStr k) (d_items (heap w a))\<rparr>))"
  using assms mv_setitem_injected [OF assms, of k]
    mv_setitem_heap [of t k "DictRef a" w a f x]
  by (auto simp: mv_setitem_plain heap_store_def)

theorem set_injects_key_in_place_witness:
  "map_of (d_items (heap alice_dict_world 0)) (t_key_name users) = None
   \<and> d_items (heap alice_dict_world 0) = [(''email'', PStr ''a@x.com'')]
   \<and> d_owner (heap alice_dict_world 0) = None
   \<and> d_items (heap (snd (MongoMultiValueTable_setitem users ''alice'' (DictRef 0) alice_dict_world)) 0)
       = [(''email'', PStr ''a@x.com''), (''login'', PStr ''alice'')]"
proof -
  have h: "map_of (d_items (heap alice_dict_world 0)) (t_key_name users) = None"
    and e: "d_items (heap alice_dict_world 0) = [(''email'', PStr ''a@x.com'')]"
      "d_owner (heap alice_dict_world 0) = None" "t_key_name users = ''login''"
    by (simp_all add: alice_dict_world_def example_defs)
  show ?thesis
    using h e set_injects_key_in_place [OF h, of "''alice''" "''email''" "PStr ''a@x.com''"]
    by simp
qed

section \<open>Enumeration\<close>

lemma iter_docs_all:
  assumes "key \<noteq> ''_id''"
  shows "list_all (has_key_and_id key) docs \<Longrightarrow>
         snd (iter_docs key docs) = None \<and> map Some (fst (iter_docs key docs)) = map (item_of key) docs"
proof (induction docs)
  case Nil
  show ?case by simp
next
  case (Cons d docs)
  obtain kv i where kv: "map_of d key = Some kv" and i: "map_of d ''_id'' = Some i"
    using Cons.prems by (auto simp: has_key_and_id_def)
  have i': "map_of (dict_remove key d) ''_id'' = Some i"
    using i assms by (simp add: map_of_dict_remove)
  obtain ys e where r: "iter_docs key docs = (ys, e)"
    by (cases "iter_docs key docs")
  have "e = None" "map Some ys = map (item_of key) docs"
    using Cons r by simp_all
  then show ?case
    using kv i' r by (simp add: dict_pop_def item_of_def)
qed

text \<open>
  The module's own operations keep every document of a table's collection in that shape:
  an empty collection has it, and every write stores the key field.
\<close>

lemma list_all_replace_first:
  "list_all Q ds \<Longrightarrow> Q new \<Longrightarrow> list_all Q (replace_first P new ds)"
  by (induction ds) auto

lemma coll_update_docs_ok:
  assumes ok: "docs_ok u w" and key: "t_key_name u \<noteq> ''_id''"
    and has: "c = t_coll u \<Longrightarrow> map_of data (t_key_name u) \<noteq> None"
  shows "docs_ok u (snd (coll_update c key k data w))"
proof (cases "c = t_coll u")
  case False
  then show ?thesis
    using ok by (auto simp: docs_ok_def coll_update_def Let_def split: option.splits)
next
  case True
  note h = has [OF True]
  have all: "list_all (has_key_and_id (t_key_name u)) (db w c)"
    using ok True by (simp add: docs_ok_def)
  have old_id: "map_of old ''_id'' \<noteq> None" if "find (matches key k) (db w c) = Some old" for old
  proof -
    have "old \<in> set (db w c)"
      using that by (auto simp: find_Some_iff)
    then show ?thesis
      using all by (auto simp: list_all_iff has_key_and_id_def)
  qed
  show ?thesis
    using all h key True old_id
    by (auto simp: docs_ok_def coll_update_def Let_def has_key_and_id_def keep_id_def
        intro!: list_all_replace_first split: option.splits)
qed

lemma docs_ok_frames [simp]:
  "docs_ok u (heap_store a f v w) = docs_ok u w"
  "docs_ok u (invalidate t k w) = docs_ok u w"
  "docs_ok u (after_read t k d w) = docs_ok u w"
  "docs_ok u (snd (MongoMutableDict_init t k d w)) = docs_ok u w"
  by (simp_all add: docs_ok_def)

lemma mv_write_docs_ok:
  assumes "docs_ok u w" "t_key_name u \<noteq> ''_id''"
    "map_of (d_items (heap w a)) (t_key_name u) \<noteq> None"
  shows "docs_ok u (snd (mv_write t k a w))"
  using coll_update_docs_ok [OF assms(1,2), of "t_coll t" "d_items (heap w a)" "t_key_name t" k] assms(3)
  by (simp add: mv_write_snd split: sum.splits)

lemma mv_setitem_docs_ok_gen:
  "docs_ok u w \<Longrightarrow> t_key_name u \<noteq> ''_id'' \<Longrightarrow>
   (case data of Scalar _ \<Rightarrow> True
    | DictRef a \<Rightarrow> map_of (d_items (heap w a)) (t_key_name u) \<noteq> None \<or> t_key_name u = t_key_name t) \<Longrightarrow>
   docs_ok u (snd (MongoMultiValueTable_setitem t k data w))"
proof (induction t k data w rule: MongoMultiValueTable_setitem.induct)
  case (1 self key_val data w)
  note ok = \<open>docs_ok u w\<close> and key = \<open>t_key_name u \<noteq> ''_id''\<close>
  show ?case
  proof (cases data)
    case (Scalar s)
    then show ?thesis using ok by (simp add: mv_setitem_snd_cases)
  next
    case (DictRef a)
    have pre: "map_of (d_items (heap w a)) (t_key_name u) \<noteq> None \<or> t_key_name u = t_key_name self"
      using 1(4) DictRef by simp
    let ?w0 = "heap_store a (t_key_name self) (PStr key_val) w"
    have has0: "map_of (d_items (heap ?w0 a)) (t_key_name u) \<noteq> None"
      using pre by auto
    show ?thesis
    proof (cases "map_of (d_items (heap w a)) (t_key_name self)")
      case (Some y)
      then have "map_of (d_items (heap w a)) (t_key_name u) \<noteq> None"
        using pre by auto
      then show ?thesis
        using DictRef Some ok key by (simp add: mv_setitem_snd_cases mv_write_docs_ok)
    next
      case None
      show ?thesis
      proof (cases "d_owner (heap w a)")
        case no: None
        then show ?thesis
          using DictRef None ok key has0
          by (simp add: mv_setitem_snd_cases mv_write_docs_ok)
      next
        case (Some own)
        obtain p rk where own: "own = (p, rk)" by (cases own)
        show ?thesis
        proof (cases "t_kind p")
          case SingleValue
          then show ?thesis
            using DictRef None Some own ok by (simp add: mv_setitem_snd_cases)
        next
          case MultiValue
          let ?n = "MongoMultiValueTable_setitem p rk (DictRef a) ?w0"
          have IH: "docs_ok u (snd ?n)"
            using 1(1) [OF DictRef None Some own [symmetric] MultiValue _ key] ok has0 DictRef
            by simp
          obtain x where x: "map_of (d_items (heap ?w0 a)) (t_key_name u) = Some x"
            using has0 by auto
          have "map_of (d_items (heap (snd ?n) a)) (t_key_name u) = Some x"
            using mv_setitem_heap [of p rk "DictRef a" ?w0 a "t_key_name u" x] x by blast
          then have "docs_ok u (snd (mv_write self key_val a (snd ?n)))"
            using IH key by (simp add: mv_write_docs_ok)
          then show ?thesis
            using DictRef None Some own MultiValue IH
            by (simp add: mv_setitem_snd_cases split: sum.splits)
        qed
      qed
    qed
  qed
qed

lemma writes_keep_docs_ok:
  assumes "docs_ok t w" and "t_key_name t \<noteq> ''_id''"
  shows "docs_ok t (snd (MongoMultiValueTable_setitem t k data w))"
    and "t_key_name t \<noteq> ''val'' \<Longrightarrow> docs_ok t (snd (MongoSingleValueTable_setitem t k data w))"
    and "docs_ok t (snd (MongoTable_pop t k w))"
    and "docs_ok t (snd (MongoMultiValueTable_getitem t k w))"
    and "docs_ok t (snd (MongoSingleValueTable_getitem t k w))"
    and "docs_ok t (snd (MongoTable_contains t k w))"
proof -
  show "docs_ok t (snd (MongoMultiValueTable_setitem t k data w))"
    using assms by (rule mv_setitem_docs_ok_gen) (simp split: pyobj.splits)
  show "docs_ok t (snd (MongoSingleValueTable_setitem t k data w))" if "t_key_name t \<noteq> ''val''"
  proof (cases data)
    case (DictRef a)
    then show ?thesis
      using assms by (simp add: MongoSingleValueTable_setitem_def raise_res_def)
  next
    case (Scalar v)
    let ?d = "dict_store ''val'' v [(t_key_name t, PStr k)]"
    have "map_of ?d (t_key_name t) \<noteq> None"
      using that by simp
    then have "docs_ok t (snd (coll_update (t_coll t) (t_key_name t) k ?d w))"
      using coll_update_docs_ok [OF assms, of "t_coll t" ?d "t_key_name t" k] by simp
    then show ?thesis
      by (cases "coll_update (t_coll t) (t_key_name t) k ?d w")
         (auto simp: Scalar sv_setitem_run split: sum.splits)
  qed
  have rm: "docs_ok t (snd (coll_remove (t_coll t) (t_key_name t) k w'))" if "docs_ok t w'" for w'
    using that by (simp add: docs_ok_def list_all_iff)
  show "docs_ok t (snd (MongoTable_pop t k w))"
    using assms(1) rm
    by (simp add: pop_run getitem_run docs_ok_def split: option.splits kind.splits)
  show "docs_ok t (snd (MongoMultiValueTable_getitem t k w))"
    "docs_ok t (snd (MongoSingleValueTable_getitem t k w))"
    "docs_ok t (snd (MongoTable_contains t k w))"
    using assms(1)
    by (simp_all add: mv_getitem_run sv_getitem_run contains_run docs_ok_def split: option.splits)
qed

text \<open>
  C8: on a collection whose documents all have the key field and a storage id (the key
  field not being \<^verbatim>\<open>_id\<close> itself), \<^verbatim>\<open>iteritems\<close> runs to its end without an
  exception and yields one pair per stored document, in order: the document's key-field
  value, and the document with the key field and \<^verbatim>\<open>_id\<close> removed. Its only call is the
  store's \<^verbatim>\<open>find\<close>; the cache is neither read nor written and nothing else changes.
\<close>

theorem iteritems_pairs:
  assumes "t_key_name t \<noteq> ''_id''" and "docs_ok t w"
  shows "snd (fst (MongoTable_iteritems t w)) = None
       \<and> map Some (fst (fst (MongoTable_iteritems t w))) = map (item_of (t_key_name t)) (db w (t_coll t))
       \<and> length (fst (fst (MongoTable_iteritems t w))) = length (db w (t_coll t))
       \<and> snd (MongoTable_iteritems t w) = w\<lparr>calls := calls w @ [Find (t_coll t)]\<rparr>"
proof -
  have run: "MongoTable_iteritems t w =
      (iter_docs (t_key_name t) (db w (t_coll t)), w\<lparr>calls := calls w @ [Find (t_coll t)]\<rparr>)"
    by (simp add: MongoTable_iteritems_def coll_find_def)
  note it = iter_docs_all [OF assms [unfolded docs_ok_def]]
  have "length (fst (iter_docs (t_key_name t) (db w (t_coll t)))) = length (db w (t_coll t))"
    using it by (blast dest: map_eq_imp_length_eq)
  then show ?thesis
    using it by (simp add: run)
qed

theorem iteritems_pairs_witness:
  "t_key_name users \<noteq> ''_id''
   \<and> docs_ok users warm_world
   \<and> MongoTable_iteritems users warm_world
       = (([(PStr ''alice'', [(''email'', PStr ''a@x.com'')])], None),
          warm_world\<lparr>calls := [Find ''users'']\<rparr>)"
proof -
  have h: "t_key_name users \<noteq> ''_id''" "docs_ok users warm_world"
    by (simp_all add: docs_ok_def has_key_and_id_def warm_world_def example_defs)
  have e: "db warm_world (t_coll users)
      = [[(''_id'', ObjectId 1), (''login'', PStr ''alice''), (''email'', PStr ''a@x.com'')]]"
    "db warm_world ''users''
      = [[(''_id'', ObjectId 1), (''login'', PStr ''alice''), (''email'', PStr ''a@x.com'')]]"
    "t_key_name users = ''login''" "t_coll users = ''users''" "calls warm_world = []"
    by (simp_all add: warm_world_def example_defs)
  show ?thesis
    using h iteritems_pairs [OF h]
    by (cases "MongoTable_iteritems users warm_world";
        cases "fst (MongoTable_iteritems users warm_world)")
       (auto simp: e item_of_def)
qed

section \<open>Assignment to a field of a view\<close>





lemma heap_store_views [simp]:
  "stored t k (heap_store a f v w) = stored t k w"
  "cached t k (heap_store a f v w) = cached t k w"
  by (simp_all add: stored_def cached_def)

lemma heap_store_lookup [simp]:
  "lookup t k (heap_store a f v w) = lookup t k w"
  by (simp add: lookup_def split: option.splits)






section \<open>Without a cache\<close>

lemma off_views:
  assumes "\<not> mc_on w"
  shows "cached t k w = None" "lookup t k w = stored t k w"
    "read_calls t k w = [FindOne (t_coll t) (t_key_name t) k]"
    "after_read t k d w = w\<lparr>calls := calls w @ [FindOne (t_coll t) (t_key_name t) k]\<rparr>"
    "invalidate t k w = w"
    "mc_on (w\<lparr>mc_server := s\<rparr>) = False"
    "stored t k (w\<lparr>mc_server := s\<rparr>) = stored t k w"
  using assms by (simp_all add: view_defs invalidate_def mc_on_def)

lemma contains_cache_free: "\<not> mc_on w \<Longrightarrow> cache_free (MongoTable_contains t k) w s"
  by (simp add: cache_free_def contains_run off_views split: option.splits)

lemma sv_getitem_cache_free: "\<not> mc_on w \<Longrightarrow> cache_free (MongoSingleValueTable_getitem t k) w s"
  by (simp add: cache_free_def sv_getitem_run off_views split: option.splits)

lemma mv_getitem_cache_free: "\<not> mc_on w \<Longrightarrow> cache_free (MongoMultiValueTable_getitem t k) w s"
  by (simp add: cache_free_def mv_getitem_run off_views MongoMutableDict_init_def split: option.splits)

lemma pop_cache_free: "\<not> mc_on w \<Longrightarrow> cache_free (MongoTable_pop t k) w s"
  by (simp add: cache_free_def pop_run getitem_run off_views MongoMutableDict_init_def
      coll_remove_def invalidate_def mc_on_def
      split: option.splits kind.splits)

lemma coll_update_no_attr: "fst (coll_update c key k data w) \<noteq> Inl AttributeError"
  by (simp add: coll_update_def Let_def split: option.splits)

lemma coll_update_mc_server:
  "coll_update c key k data (w\<lparr>mc_server := s\<rparr>)
     = (fst (coll_update c key k data w), (snd (coll_update c key k data w))\<lparr>mc_server := s\<rparr>)"
  by (simp add: coll_update_def Let_def split: option.splits)

lemma sv_setitem_cache_free:
  assumes off: "\<not> mc_on w"
  shows "cache_free (MongoSingleValueTable_setitem t k data) w s"
proof (cases data)
  case (DictRef a)
  then show ?thesis
    by (simp add: cache_free_def MongoSingleValueTable_setitem_def raise_res_def)
next
  case (Scalar v)
  let ?d = "dict_store ''val'' v [(t_key_name t, PStr k)]"
  let ?u = "coll_update (t_coll t) (t_key_name t) k ?d w"
  have run: "MongoSingleValueTable_setitem t k (Scalar v) w' =
      (fst (coll_update (t_coll t) (t_key_name t) k ?d w'),
       snd (coll_update (t_coll t) (t_key_name t) k ?d w'))" if "\<not> mc_on w'" for w'
    using that
    by (cases "coll_update (t_coll t) (t_key_name t) k ?d w'")
       (auto simp: sv_setitem_run invalidate_def dest: arg_cong [where f = "\<lambda>p. mc_on (snd p)"]
          split: sum.splits)
  show ?thesis
    using off coll_update_no_attr [of "t_coll t" "t_key_name t" k ?d w]
    by (simp add: cache_free_def Scalar run off_views coll_update_mc_server coll_update_frame)
qed


lemma mv_write_off:
  assumes "\<not> mc_on w"
  shows "mv_write t k a w =
           (fst (coll_update (t_coll t) (t_key_name t) k (d_items (heap w a)) w),
            snd (coll_update (t_coll t) (t_key_name t) k (d_items (heap w a)) w))"
  using assms
  by (cases "coll_update (t_coll t) (t_key_name t) k (d_items (heap w a)) w")
     (auto simp: mv_write_def invalidate_def dest: arg_cong [where f = "\<lambda>p. mc_on (snd p)"]
        split: sum.splits)

lemma mv_write_mc_server:
  assumes "\<not> mc_on w"
  shows "mv_write t k a (w\<lparr>mc_server := s\<rparr>)
           = (fst (mv_write t k a w), (snd (mv_write t k a w))\<lparr>mc_server := s\<rparr>)"
  using assms by (simp add: mv_write_off off_views coll_update_mc_server)

lemma heap_store_mc_server:
  "heap_store a f v (w\<lparr>mc_server := s\<rparr>) = (heap_store a f v w)\<lparr>mc_server := s\<rparr>"
  by (simp add: heap_store_def)

lemma mv_setitem_no_attr:
  "fst (MongoMultiValueTable_setitem t k data w) \<noteq> Inl AttributeError"
proof (induction t k data w rule: MongoMultiValueTable_setitem.induct)
  case (1 self key_val data w)
  show ?case
  proof (cases data)
    case (Scalar s)
    then show ?thesis by (simp add: mv_setitem_Scalar)
  next
    case (DictRef a)
    show ?thesis
    proof (cases "map_of (d_items (heap w a)) (t_key_name self)")
      case (Some y)
      then show ?thesis
        using DictRef by (simp add: mv_setitem_present mv_write_fst coll_update_no_attr)
    next
      case None
      show ?thesis
      proof (cases "d_owner (heap w a)")
        case no: None
        then show ?thesis
          using DictRef None by (simp add: mv_setitem_plain mv_write_fst coll_update_no_attr)
      next
        case (Some own)
        obtain p rk where own: "own = (p, rk)" by (cases own)
        show ?thesis
        proof (cases "t_kind p")
          case SingleValue
          then show ?thesis
            using DictRef None Some own by (simp add: mv_setitem_view_sv)
        next
          case MultiValue
          note IH = 1 [OF DictRef None Some own [symmetric] MultiValue]
          let ?n = "MongoMultiValueTable_setitem p rk (DictRef a)
                      (heap_store a (t_key_name self) (PStr key_val) w)"
          show ?thesis
            using DictRef None Some own MultiValue IH
            by (cases ?n)
               (auto simp: mv_setitem_view mv_write_fst coll_update_no_attr split: sum.splits)
        qed
      qed
    qed
  qed
qed

lemma mv_setitem_mc_server:
  "\<not> mc_on w \<Longrightarrow>
   MongoMultiValueTable_setitem t k data (w\<lparr>mc_server := s\<rparr>)
     = (fst (MongoMultiValueTable_setitem t k data w),
        (snd (MongoMultiValueTable_setitem t k data w))\<lparr>mc_server := s\<rparr>)"
proof (induction t k data w rule: MongoMultiValueTable_setitem.induct)
  case (1 self key_val data w)
  note off = \<open>\<not> mc_on w\<close>
  show ?case
  proof (cases data)
    case (Scalar x)
    then show ?thesis by (simp add: mv_setitem_Scalar)
  next
    case (DictRef a)
    show ?thesis
    proof (cases "map_of (d_items (heap w a)) (t_key_name self)")
      case (Some y)
      then show ?thesis
        using DictRef off by (simp add: mv_setitem_present mv_write_mc_server)
    next
      case None
      let ?w0 = "heap_store a (t_key_name self) (PStr key_val) w"
      have off0: "\<not> mc_on ?w0"
        using off by simp
      show ?thesis
      proof (cases "d_owner (heap w a)")
        case no: None
        then show ?thesis
          using DictRef None off0
          by (simp add: mv_setitem_plain heap_store_mc_server mv_write_mc_server)
      next
        case (Some own)
        obtain p rk where own: "own = (p, rk)" by (cases own)
        show ?thesis
        proof (cases "t_kind p")
          case SingleValue
          then show ?thesis
            using DictRef None Some own by (simp add: mv_setitem_view_sv heap_store_mc_server)
        next
          case MultiValue
          let ?n = "MongoMultiValueTable_setitem p rk (DictRef a) ?w0"
          have IH: "MongoMultiValueTable_setitem p rk (DictRef a) (?w0\<lparr>mc_server := s\<rparr>)
                      = (fst ?n, (snd ?n)\<lparr>mc_server := s\<rparr>)"
            using 1(1) [OF DictRef None Some own [symmetric] MultiValue off0] DictRef by simp
          have offn: "\<not> mc_on (snd ?n)"
            using off0 by simp
          obtain x b where n: "?n = (x, b)"
            by (cases ?n)
          have offb: "\<not> mc_on b"
            using offn n by simp
          show ?thesis
            using DictRef None Some own MultiValue n
            by (cases x)
               (simp_all add: mv_setitem_view heap_store_mc_server IH mv_write_mc_server [OF offb])
        qed
      qed
    qed
  qed
qed

lemma mv_setitem_off_frame:
  assumes "\<not> mc_on w"
  shows "filter is_mc_call (calls (snd (MongoMultiValueTable_setitem t k data w)))
           = filter is_mc_call (calls w)"
    and "mc_server (snd (MongoMultiValueTable_setitem t k data w)) = mc_server w"
proof -
  let ?Q = "\<lambda>w. if mc_on w then None else Some (filter is_mc_call (calls w), mc_server w)"
  have "?Q (snd (MongoMultiValueTable_setitem t k data w)) = ?Q w"
  proof (rule mv_setitem_frame)
    show "?Q (heap_store a f v w) = ?Q w" for a f v w
      by simp
    show "?Q (snd (mv_write t k a w)) = ?Q w" for t k a w
      by (simp add: mv_write_off coll_update_frame)
  qed
  then show "filter is_mc_call (calls (snd (MongoMultiValueTable_setitem t k data w)))
           = filter is_mc_call (calls w)"
    and "mc_server (snd (MongoMultiValueTable_setitem t k data w)) = mc_server w"
    using assms by simp_all
qed

lemma mv_setitem_cache_free:
  assumes off: "\<not> mc_on w"
  shows "cache_free (MongoMultiValueTable_setitem t k data) w s"
  using mv_setitem_no_attr [of t k data w] mv_setitem_off_frame [OF off, of t k data]
  by (simp add: cache_free_def mv_setitem_mc_server [OF off])

text \<open>
  C10: while the shared \<^verbatim>\<open>Memcache\<close> object has no client (\<^verbatim>\<open>_MC.cache\<close> is None),
  \<^verbatim>\<open>__contains__\<close>, both \<^verbatim>\<open>__getitem__\<close>, both \<^verbatim>\<open>__setitem__\<close> and \<^verbatim>\<open>pop\<close> make no
  call to the cache service and never raise the AttributeError that the unguarded
  \<^verbatim>\<open>Memcache.get\<close>, \<^verbatim>\<open>set\<close> and \<^verbatim>\<open>delete\<close> raise on the missing client; their results
  and the store they leave do not depend on what the cache service holds.
\<close>

theorem no_cache_no_cache_access:
  assumes "mc_cache (MC w) = None"
  shows "cache_free (MongoTable_contains t k) w s
       \<and> cache_free (MongoSingleValueTable_getitem t k) w s
       \<and> cache_free (MongoMultiValueTable_getitem t k) w s
       \<and> cache_free (MongoSingleValueTable_setitem t k data) w s
       \<and> cache_free (MongoMultiValueTable_setitem t k data) w s
       \<and> cache_free (MongoTable_pop t k) w s
       \<and> Memcache_get k p w = (Inl AttributeError, w)
       \<and> Memcache_set k d p w = (Inl AttributeError, w)
       \<and> Memcache_delete k p w = (Inl AttributeError, w)"
proof -
  have off: "\<not> mc_on w"
    using assms by (simp add: mc_on_def)
  show ?thesis
    using assms
    by (simp add: contains_cache_free [OF off] sv_getitem_cache_free [OF off]
        mv_getitem_cache_free [OF off] sv_setitem_cache_free [OF off]
        mv_setitem_cache_free [OF off] pop_cache_free [OF off]
        Memcache_get_def Memcache_set_def Memcache_delete_def)
qed

theorem no_cache_no_cache_access_witness:
  "mc_cache (MC plain_world) = None
   \<and> cache_free (MongoTable_contains roles ''admin'') plain_world (mc_server stale_world)
   \<and> cache_free (MongoSingleValueTable_getitem roles ''admin'') plain_world (mc_server stale_world)
   \<and> cache_free (MongoSingleValueTable_setitem roles ''admin'' (Scalar (PInt 7))) plain_world
        (mc_server stale_world)
   \<and> cache_free (MongoTable_pop roles ''admin'') plain_world (mc_server stale_world)
   \<and> MongoSingleValueTable_getitem roles ''admin'' (plain_world\<lparr>mc_server := mc_server stale_world\<rparr>)
       = (Inr (PInt 100), plain_world\<lparr>mc_server := mc_server stale_world,
            calls := [FindOne ''roles'' ''role'' ''admin'']\<rparr>)
   \<and> MongoSingleValueTable_getitem roles ''admin'' plain_world
       = (Inr (PInt 100), plain_world\<lparr>calls := [FindOne ''roles'' ''role'' ''admin'']\<rparr>)
   \<and> Memcache_get ''admin'' (Some ''rolesrole'') plain_world = (Inl AttributeError, plain_world)"
proof -
  have h: "mc_cache (MC plain_world) = None"
    by (simp add: plain_world_def example_defs)
  have g: "MongoSingleValueTable_getitem roles ''admin'' plain_world
       = (Inr (PInt 100), plain_world\<lparr>calls := [FindOne ''roles'' ''role'' ''admin'']\<rparr>)"
    "MongoSingleValueTable_getitem roles ''admin'' (plain_world\<lparr>mc_server := mc_server stale_world\<rparr>)
       = (Inr (PInt 100), plain_world\<lparr>mc_server := mc_server stale_world,
            calls := [FindOne ''roles'' ''role'' ''admin'']\<rparr>)"
    by (simp_all add: sv_getitem_run plain_world_def eval_defs)
  show ?thesis
    using h g
      no_cache_no_cache_access [OF h, where t = roles and k = "''admin''"
        and s = "mc_server stale_world" and data = "Scalar (PInt 7)" and p = "Some ''rolesrole''"]
    by simp
qed

end
